theory Spec2Isabelle
  imports Main
begin

section \<open>pipiGo: a cron-driven HTTP task scheduler (main.go)\<close>

text \<open>
  The program keeps two maps under one mutex (\<open>tasks\<close>, \<open>cronIDs\<close>), a cron engine \<open>c\<close>
  and a database handle \<open>db\<close>. This theory embeds \<open>registerTask\<close>, \<open>runTask\<close>,
  \<open>appendLog\<close>, \<open>loadTasksFromDB\<close> and the create, delete and run handlers of \<open>main\<close>
  as functions on an explicit state. A function that embeds a whole handler is that
  handler run without interruption. Where a claim depends on what other requests may do
  in between, the handler is cut into the segments between which the source holds no
  lock, and an interleaving is a composition of segments of several handlers.
\<close>

subsection \<open>Data model\<close>

type_synonym time = int

text \<open>\<open>type Log struct\<close>. The primary key is assigned by the store; the program always
  submits \<open>ID = 0\<close>.\<close>

record Log =
  ID :: int
  TaskID :: int
  Time :: time
  StatusText :: string
  ResponseBody :: string

text \<open>\<open>type Task struct\<close>. Go's \<open>int\<close> is modelled by \<open>int\<close>; the one place where the
  64-bit range matters (the timeout duration) wraps explicitly, see \<open>wrap64\<close>.\<close>

record Task =
  ID :: int
  Name :: string
  CronExpr :: string
  URL :: string
  Method :: string
  Headers :: string
  Body :: string
  Timeout :: int
  Logs :: "Log list"
  NextRun :: time

subsection \<open>Collaborators outside the repository\<close>

text \<open>\<open>http.Client\<close> and \<open>http.Request\<close>, reduced to the fields the program sets. The
  client timeout is a \<open>time.Duration\<close>: a signed 64-bit count of nanoseconds.\<close>

record http_Client =
  Client_Timeout :: int

record http_Request =
  Req_Method :: string
  Req_URL :: string
  Req_Header :: "string \<rightharpoonup> string"
  Req_Body :: "string option"

text \<open>What \<open>client.Do\<close> followed by \<open>io.ReadAll\<close> can produce: a transport error, or a
  response with its status code and either a read error or the whole body.\<close>

datatype http_result =
  TransportError string
| Response int "string + string"

text \<open>The behaviour of the libraries and of the outside world during one operation. Every
  field is a value the program receives and branches on.\<close>

record env =
  cronParseErr :: "string \<Rightarrow> string option"
  newRequestErr :: "string \<Rightarrow> string \<Rightarrow> string option"
  canonicalKey :: "string \<Rightarrow> string"
  jsonHeaders :: "string \<Rightarrow> string + (string \<times> string) list"
  clientDo :: "http_Client \<Rightarrow> http_Request \<Rightarrow> http_result"
  now :: time
  logCreateErr :: "Log \<Rightarrow> string option"
  taskCreate :: "Task \<Rightarrow> string + int"
  taskFirst :: "string \<Rightarrow> string + Task"

text \<open>What the process emits, in order: the lines written to standard output by
  \<open>fmt.Printf\<close> and \<open>fmt.Println\<close> (one constructor per format string, carrying the
  format arguments), the requests handed to \<open>client.Do\<close> together with the client, and
  the records handed to the store by \<open>db.Create(&log)\<close>.\<close>

datatype event =
  RegisterFailed int string string
| RegisterOk int string string
| TaskNotFound int
| TaskStart int string
| HeaderJSONInvalid int string
| LogWriteFailed int string
| LoadedTasks nat
| ServerStarted
| ClientDo http_Client http_Request
| SinkAppend Log

text \<open>Modelled from the spec: the Clock/Trigger Engine (section 4.2), which is the
  library \<open>github.com/robfig/cron/v3\<close> and not part of the repository. It owns a set of
  entries keyed by an opaque handle; \<open>addEntry(cronExpr, callback)\<close> returns a handle or an
  error and \<open>removeEntry(handle)\<close> drops the entry. Handles are issued from a counter. An
  entry keeps its handle, its expression and its callback; the only callback the program
  installs is the closure \<open>func() { runTask(t.ID) }\<close>, kept here as the captured pointer
  \<open>t\<close>.\<close>

type_synonym EntryID = int

record cron =
  entries :: "(EntryID \<times> string \<times> nat) list"
  nextID :: EntryID
  running :: bool

definition cron_New :: cron where
  "cron_New = \<lparr>entries = [], nextID = 0, running = False\<rparr>"

definition AddFunc :: "env \<Rightarrow> string \<Rightarrow> nat \<Rightarrow> cron \<Rightarrow> (string + EntryID) \<times> cron" where
  "AddFunc e spec t cr =
     (case cronParseErr e spec of
        Some err \<Rightarrow> (Inl err, cr)
      | None \<Rightarrow>
          (let eid = nextID cr + 1
           in (Inr eid, cr\<lparr>entries := entries cr @ [(eid, spec, t)], nextID := eid\<rparr>)))"

definition Remove :: "EntryID \<Rightarrow> cron \<Rightarrow> cron" where
  "Remove eid cr = cr\<lparr>entries := filter (\<lambda>en. fst en \<noteq> eid) (entries cr)\<rparr>"

definition Start :: "cron \<Rightarrow> cron" where
  "Start cr = cr\<lparr>running := True\<rparr>"

subsection \<open>Program state\<close>

text \<open>The package-level variables \<open>db\<close>, \<open>tasks\<close>, \<open>cronIDs\<close> and \<open>c\<close>, the cells that
  \<open>*Task\<close> pointers refer to, and what the process has emitted so far. \<open>tasks\<close> is a
  \<open>map[int]*Task\<close>: it holds addresses, and \<open>heap\<close> gives the struct stored at an address.
  \<open>nextAddr\<close> is the first address not yet allocated.\<close>

record state =
  heap :: "nat \<Rightarrow> Task"
  nextAddr :: nat
  tasks :: "int \<rightharpoonup> nat"
  cronIDs :: "int \<rightharpoonup> EntryID"
  c :: cron
  taskTable :: "Task list"
  logTable :: "Log list"
  trace :: "event list"

definition zeroTask :: Task where
  "zeroTask = \<lparr>ID = 0, Name = [], CronExpr = [], URL = [], Method = [], Headers = [],
     Body = [], Timeout = 0, Logs = [], NextRun = 0\<rparr>"

text \<open>The state after the package-level initialisers have run and \<open>gorm.Open\<close> has
  returned the persisted rows.\<close>

definition initState :: "Task list \<Rightarrow> Log list \<Rightarrow> state" where
  "initState rows logs =
     \<lparr>heap = (\<lambda>_. zeroTask), nextAddr = 0, tasks = Map.empty, cronIDs = Map.empty,
      c = cron_New, taskTable = rows, logTable = logs, trace = []\<rparr>"

text \<open>Taking the address of a local \<open>Task\<close> variable that escapes: the variable lives in
  a fresh cell.\<close>

definition alloc :: "Task \<Rightarrow> state \<Rightarrow> nat \<times> state" where
  "alloc t s = (nextAddr s, s\<lparr>heap := (heap s)(nextAddr s := t), nextAddr := Suc (nextAddr s)\<rparr>)"

definition printf :: "event \<Rightarrow> state \<Rightarrow> state" where
  "printf ev s = s\<lparr>trace := trace s @ [ev]\<rparr>"

subsection \<open>registerTask\<close>

text \<open>\<open>func registerTask(t *Task)\<close>, lines 156 to 173, in the three segments between
  which the source holds no lock. First segment, lines 157 to 159: the definition is
  stored, under the mutex.\<close>

definition registerTask_store :: "nat \<Rightarrow> state \<Rightarrow> state" where
  "registerTask_store t s = s\<lparr>tasks := (tasks s)(Task.ID (heap s t) \<mapsto> t)\<rparr>"

text \<open>Second segment, lines 161 to 163: the call of \<open>c.AddFunc\<close>, outside the mutex.\<close>

definition registerTask_add :: "env \<Rightarrow> nat \<Rightarrow> state \<Rightarrow> (string + EntryID) \<times> state" where
  "registerTask_add e t s =
     (case AddFunc e (CronExpr (heap s t)) t (c s) of (r, cr) \<Rightarrow> (r, s\<lparr>c := cr\<rparr>))"

text \<open>Third segment, lines 164 to 172: on an error the failure is printed and nothing is
  stored; otherwise the handle is stored, under the mutex again, and the success is
  printed. There is no call of \<open>c.Remove\<close>.\<close>

definition registerTask_handle :: "nat \<Rightarrow> string + EntryID \<Rightarrow> state \<Rightarrow> state" where
  "registerTask_handle t r s =
     (case r of
        Inl err \<Rightarrow> printf (RegisterFailed (Task.ID (heap s t)) (Name (heap s t)) err) s
      | Inr entryID \<Rightarrow>
          printf (RegisterOk (Task.ID (heap s t)) (Name (heap s t)) (CronExpr (heap s t)))
            (s\<lparr>cronIDs := (cronIDs s)(Task.ID (heap s t) \<mapsto> entryID)\<rparr>))"

text \<open>The whole function, run without interruption.\<close>

definition registerTask :: "env \<Rightarrow> nat \<Rightarrow> state \<Rightarrow> state" where
  "registerTask e t s =
     (case registerTask_add e t (registerTask_store t s) of
        (r, s2) \<Rightarrow> registerTask_handle t r s2)"

subsection \<open>appendLog\<close>

text \<open>\<open>func appendLog(taskID int, statusText, responseBody string)\<close>, lines 241 to 251:
  one \<open>db.Create(&log)\<close>; a store error is printed and nothing else happens.\<close>

definition appendLog :: "env \<Rightarrow> int \<Rightarrow> string \<Rightarrow> string \<Rightarrow> state \<Rightarrow> state" where
  "appendLog e taskID statusText responseBody s =
     (let log = \<lparr>Log.ID = 0, TaskID = taskID, Time = now e, StatusText = statusText,
                 ResponseBody = responseBody\<rparr>;
          s1 = s\<lparr>trace := trace s @ [SinkAppend log]\<rparr>
      in case logCreateErr e log of
           Some err \<Rightarrow> printf (LogWriteFailed taskID err) s1
         | None \<Rightarrow> s1\<lparr>logTable := logTable s1 @ [log]\<rparr>)"

subsection \<open>runTask\<close>

text \<open>\<open>%d\<close> of \<open>fmt.Sprintf\<close>: the decimal digits, with a minus sign for a negative
  number.\<close>

fun digits :: "nat \<Rightarrow> string" where
  "digits n = (if n < 10 then [char_of (48 + n)] else digits (n div 10) @ [char_of (48 + n mod 10)])"

definition itoa :: "int \<Rightarrow> string" where
  "itoa i = (if i < 0 then CHR ''-'' # digits (nat (- i)) else digits (nat i))"

text \<open>The string constants of the status texts, as the UTF-8 bytes of the source file.\<close>

definition msgCreateFailed :: string where
  "msgCreateFailed = [CHR 0xE5, CHR 0x88, CHR 0x9B, CHR 0xE5, CHR 0xBB, CHR 0xBA, CHR 0xE8,
     CHR 0xAF, CHR 0xB7, CHR 0xE6, CHR 0xB1, CHR 0x82, CHR 0xE5, CHR 0xA4, CHR 0xB1, CHR 0xE8,
     CHR 0xB4, CHR 0xA5, CHR 0x3A, CHR 0x20]"

definition msgRequestFailed :: string where
  "msgRequestFailed = [CHR 0xE8, CHR 0xAF, CHR 0xB7, CHR 0xE6, CHR 0xB1, CHR 0x82, CHR 0xE5,
     CHR 0xA4, CHR 0xB1, CHR 0xE8, CHR 0xB4, CHR 0xA5, CHR 0x3A, CHR 0x20]"

definition msgStatus :: string where
  "msgStatus = [CHR 0xE7, CHR 0x8A, CHR 0xB6, CHR 0xE6, CHR 0x80, CHR 0x81, CHR 0x3A, CHR 0x20]"

definition msgReadFailed :: string where
  "msgReadFailed = [CHR 0x2C, CHR 0x20, CHR 0xE8, CHR 0xAF, CHR 0xBB, CHR 0xE5, CHR 0x8F,
     CHR 0x96, CHR 0xE5, CHR 0x93, CHR 0x8D, CHR 0xE5, CHR 0xBA, CHR 0x94, CHR 0xE4, CHR 0xBD,
     CHR 0x93, CHR 0xE5, CHR 0xA4, CHR 0xB1, CHR 0xE8, CHR 0xB4, CHR 0xA5, CHR 0x3A, CHR 0x20]"

text \<open>\<open>time.Duration(t.Timeout) * time.Second\<close> is a multiplication of signed 64-bit
  integers, which wraps.\<close>

definition wrap64 :: "int \<Rightarrow> int" where
  "wrap64 x = (x + 2 ^ 63) mod 2 ^ 64 - 2 ^ 63"

definition timeoutDuration :: "Task \<Rightarrow> int" where
  "timeoutDuration t = wrap64 (Timeout t * 1000000000)"


text \<open>\<open>http.NewRequest\<close> and \<open>Header.Set\<close>. The latter stores the value under the
  canonical form of the key, replacing what was there.\<close>

definition http_NewRequest :: "env \<Rightarrow> string \<Rightarrow> string \<Rightarrow> string option \<Rightarrow> string + http_Request" where
  "http_NewRequest e m u b =
     (case newRequestErr e m u of
        Some err \<Rightarrow> Inl err
      | None \<Rightarrow> Inr \<lparr>Req_Method = m, Req_URL = u, Req_Header = Map.empty, Req_Body = b\<rparr>)"

definition Header_Set :: "env \<Rightarrow> string \<Rightarrow> string \<Rightarrow> http_Request \<Rightarrow> http_Request" where
  "Header_Set e k v req = req\<lparr>Req_Header := (Req_Header req)(canonicalKey e k \<mapsto> v)\<rparr>"

text \<open>Lines 191 to 200 of \<open>runTask\<close>: the request is a POST with the stored body and a JSON
  content type exactly when the method is the string \<open>POST\<close>, and a GET without body
  otherwise.\<close>

definition createRequest :: "env \<Rightarrow> Task \<Rightarrow> string + http_Request" where
  "createRequest e t =
     (if Method t = ''POST'' then
        (case http_NewRequest e ''POST'' (URL t) (Some (Body t)) of
           Inl err \<Rightarrow> Inl err
         | Inr req \<Rightarrow> Inr (Header_Set e ''Content-Type'' ''application/json'' req))
      else http_NewRequest e ''GET'' (URL t) None)"

text \<open>Lines 207 to 218: the configured headers are set one by one, in the order in which
  \<open>range\<close> visits the decoded map; headers that do not decode are only reported.\<close>

definition setHeaders :: "env \<Rightarrow> Task \<Rightarrow> http_Request \<Rightarrow> state \<Rightarrow> http_Request \<times> state" where
  "setHeaders e t req s =
     (if Headers t \<noteq> [] then
        (case jsonHeaders e (Headers t) of
           Inr headers \<Rightarrow> (fold (\<lambda>(key, val). Header_Set e key val) headers req, s)
         | Inl err \<Rightarrow> (req, printf (HeaderJSONInvalid (Task.ID t) err) s))
      else (req, s))"

text \<open>\<open>func runTask(id int)\<close>, lines 176 to 238.\<close>

definition runTask :: "env \<Rightarrow> int \<Rightarrow> state \<Rightarrow> state" where
  "runTask e tid s =
     (case tasks s tid of
        None \<Rightarrow> printf (TaskNotFound tid) s
      | Some p \<Rightarrow>
          (let t = heap s p;
               s1 = printf (TaskStart (Task.ID t) (Name t)) s;
               client = \<lparr>Client_Timeout = timeoutDuration t\<rparr>
           in case createRequest e t of
                Inl err \<Rightarrow> appendLog e (Task.ID t) (msgCreateFailed @ err) [] s1
              | Inr req0 \<Rightarrow>
                  (case setHeaders e t req0 s1 of
                     (req, s2) \<Rightarrow>
                       (let s3 = s2\<lparr>trace := trace s2 @ [ClientDo client req]\<rparr>
                        in case clientDo e client req of
                             TransportError err \<Rightarrow>
                               appendLog e (Task.ID t) (msgRequestFailed @ err) [] s3
                           | Response code (Inl err) \<Rightarrow>
                               appendLog e (Task.ID t)
                                 (msgStatus @ itoa code @ msgReadFailed @ err) [] s3
                           | Response code (Inr bodyBytes) \<Rightarrow>
                               appendLog e (Task.ID t) (msgStatus @ itoa code) bodyBytes s3))))"

subsection \<open>loadTasksFromDB and main\<close>

text \<open>\<open>func loadTasksFromDB()\<close>, lines 254 to 263. Each iteration declares a new
  \<open>taskCopy\<close> and registers its address.\<close>

fun loadLoop :: "env \<Rightarrow> Task list \<Rightarrow> state \<Rightarrow> state" where
  "loadLoop e [] s = s"
| "loadLoop e (x # xs) s =
     (case alloc x s of (taskCopy, s1) \<Rightarrow> loadLoop e xs (registerTask e taskCopy s1))"

definition loadTasksFromDB :: "env \<Rightarrow> state \<Rightarrow> state" where
  "loadTasksFromDB e s =
     (let list = taskTable s
      in loadLoop e list (printf (LoadedTasks (length list)) s))"

text \<open>The responses of the handlers: the HTTP status and the JSON payload. The fixed
  messages are constructors.\<close>

datatype payload =
  ErrorText string
| RequiredFieldsMissing
| TaskDoesNotExist
| TaskDeleted
| TaskRunsInBackground
| TaskJSON Task

type_synonym response = "int \<times> payload"

text \<open>The handler of \<open>POST /api/tasks\<close>, lines 92 to 115. Its input is what
  \<open>ctx.ShouldBindJSON(&req)\<close> produced. First lines 93 to 111: the request is checked,
  the timeout is defaulted and the row is created; the result is the error response, or
  the definition with its identifier and the state in which the row is stored. Modelled
  from the spec: the store's \<open>createTask(definition) -> definition-with-id\<close>, which either
  fails or appends the row under the identifier it reports.\<close>

definition handleCreate_persist ::
  "env \<Rightarrow> string + Task \<Rightarrow> state \<Rightarrow> response + Task \<times> state" where
  "handleCreate_persist e bound s =
     (case bound of
        Inl err \<Rightarrow> Inl (400, ErrorText err)
      | Inr req \<Rightarrow>
          if Name req = [] \<or> CronExpr req = [] \<or> URL req = [] then
            Inl (400, RequiredFieldsMissing)
          else
            (let req1 = (if Timeout req \<le> 0 then req\<lparr>Timeout := 10\<rparr> else req)
             in case taskCreate e req1 of
                  Inl err \<Rightarrow> Inl (500, ErrorText err)
                | Inr newID \<Rightarrow>
                    (let req2 = req1\<lparr>Task.ID := newID\<rparr>
                     in Inr (req2, s\<lparr>taskTable := taskTable s @ [req2]\<rparr>))))"

text \<open>The whole handler, run without interruption: after the row is created, lines 113
  and 114 register the definition and answer. The cell of the local \<open>req\<close> is allocated
  where its address is taken.\<close>

definition handleCreate :: "env \<Rightarrow> string + Task \<Rightarrow> state \<Rightarrow> response \<times> state" where
  "handleCreate e bound s =
     (case handleCreate_persist e bound s of
        Inl resp \<Rightarrow> (resp, s)
      | Inr (req, s1) \<Rightarrow>
          (case alloc req s1 of
             (t, s2) \<Rightarrow> ((200, TaskJSON req), registerTask e t s2)))"

text \<open>Lines 126 to 132 of the delete handler, between \<open>taskMutex.Lock()\<close> and
  \<open>taskMutex.Unlock()\<close>: the registry's unregister operation.\<close>

definition unregister :: "int \<Rightarrow> state \<Rightarrow> state" where
  "unregister tid s =
     (let s1 = (case cronIDs s tid of
                  Some entryID \<Rightarrow> s\<lparr>c := Remove entryID (c s), cronIDs := (cronIDs s)(tid := None)\<rparr>
                | None \<Rightarrow> s)
      in s1\<lparr>tasks := (tasks s1)(tid := None)\<rparr>)"

text \<open>The handler of \<open>DELETE /api/tasks/:id\<close>, lines 118 to 137. Modelled from the
  spec: the store's \<open>deleteTask(id)\<close>, which cascades to the execution records of the
  task.\<close>

definition handleDelete :: "env \<Rightarrow> string \<Rightarrow> state \<Rightarrow> response \<times> state" where
  "handleDelete e param s =
     (case taskFirst e param of
        Inl err \<Rightarrow> ((404, TaskDoesNotExist), s)
      | Inr task \<Rightarrow>
          (let s1 = unregister (Task.ID task) s
           in ((200, TaskDeleted),
               s1\<lparr>taskTable := filter (\<lambda>r. Task.ID r \<noteq> Task.ID task) (taskTable s1),
                  logTable := filter (\<lambda>l. TaskID l \<noteq> Task.ID task) (logTable s1)\<rparr>)))"

text \<open>The handler of \<open>POST /api/tasks/:id/run\<close>, lines 140 to 148. The goroutine it
  starts is run to its end at once.\<close>

definition handleRun :: "env \<Rightarrow> string \<Rightarrow> state \<Rightarrow> response \<times> state" where
  "handleRun e param s =
     (case taskFirst e param of
        Inl err \<Rightarrow> ((404, TaskDoesNotExist), s)
      | Inr task \<Rightarrow> ((200, TaskRunsInBackground), runTask e (Task.ID task) s))"

text \<open>The engine firing the entry with a given handle: the closure installed by
  \<open>registerTask\<close> reads \<open>t.ID\<close> through the captured pointer and calls \<open>runTask\<close>.\<close>

definition fire :: "env \<Rightarrow> EntryID \<Rightarrow> state \<Rightarrow> state" where
  "fire e eid s =
     (case find (\<lambda>en. fst en = eid) (entries (c s)) of
        None \<Rightarrow> s
      | Some (_, _, t) \<Rightarrow> runTask e (Task.ID (heap s t)) s)"

text \<open>\<open>func main()\<close> up to the call of \<open>r.Run\<close>, lines 51 to 152: the result is a panic
  when the database cannot be opened, and otherwise the state in which the serving loop
  is entered.\<close>

definition main :: "env \<Rightarrow> string + Task list \<times> Log list \<Rightarrow> string + state" where
  "main e opened =
     (case opened of
        Inl err \<Rightarrow> Inl err
      | Inr (rows, logs) \<Rightarrow>
          (let s = loadTasksFromDB e (initState rows logs)
           in Inr (printf ServerStarted (s\<lparr>c := Start (c s)\<rparr>))))"

text \<open>A create request and a delete request served at the same time, in the interleaving
  in which the whole delete handler (lines 118 to 137) runs after the create handler has
  stored the definition (lines 93 to 113 and 157 to 159) and before it calls \<open>c.AddFunc\<close>
  (lines 161 to 172). The mutex is free at that point, and nothing else orders the two
  handlers. The result is the state when both handlers have returned.\<close>

definition createRacedByDelete ::
  "env \<Rightarrow> string + Task \<Rightarrow> env \<Rightarrow> string \<Rightarrow> state \<Rightarrow> state" where
  "createRacedByDelete e bound e' param s =
     (case handleCreate_persist e bound s of
        Inl resp \<Rightarrow> snd (handleDelete e' param s)
      | Inr (req, s1) \<Rightarrow>
          (case alloc req s1 of
             (t, s2) \<Rightarrow>
               (case registerTask_add e t (snd (handleDelete e' param (registerTask_store t s2))) of
                  (r, s3) \<Rightarrow> registerTask_handle t r s3)))"

subsection \<open>Observations\<close>

text \<open>The engine entries whose callback dispatches a given task identifier.\<close>

definition entriesFor :: "state \<Rightarrow> int \<Rightarrow> (EntryID \<times> string \<times> nat) list" where
  "entriesFor s tid = filter (\<lambda>en. Task.ID (heap s (snd (snd en))) = tid) (entries (c s))"

text \<open>The execution records handed to the store, and the requests handed to the HTTP
  client, in the order of the calls.\<close>

fun sinkAppends :: "event list \<Rightarrow> Log list" where
  "sinkAppends [] = []"
| "sinkAppends (SinkAppend l # tr) = l # sinkAppends tr"
| "sinkAppends (_ # tr) = sinkAppends tr"

fun sentRequests :: "event list \<Rightarrow> (http_Client \<times> http_Request) list" where
  "sentRequests [] = []"
| "sentRequests (ClientDo cl req # tr) = (cl, req) # sentRequests tr"
| "sentRequests (_ # tr) = sentRequests tr"

text \<open>The invariant of the two registry maps: an identifier with a handle has a
  definition.\<close>

definition handlesDefined :: "state \<Rightarrow> bool" where
  "handlesDefined s = (dom (cronIDs s) \<subseteq> dom (tasks s))"

subsection \<open>Concrete inputs\<close>

text \<open>An outside world in which \<open>not-a-cron\<close> is the one expression the parser rejects,
  the empty URL is the one URL \<open>http.NewRequest\<close> rejects, header keys are already
  canonical, three header texts are known to the JSON decoder, the endpoint answers 200
  with a body, and the store accepts every write.\<close>

definition envA :: env where
  "envA = \<lparr>cronParseErr = (\<lambda>spec. if spec = ''not-a-cron'' then Some ''bad spec'' else None),
     newRequestErr = (\<lambda>m u. if u = [] then Some ''empty url'' else None),
     canonicalKey = (\<lambda>k. k),
     jsonHeaders = (\<lambda>txt. if txt = ''{}'' then Inr []
        else if txt = ''{\"Content-Type\":\"text/plain\"}'' then Inr [(''Content-Type'', ''text/plain'')]
        else Inl ''invalid character''),
     clientDo = (\<lambda>cl req. Response 200 (Inr ''{\"ok\":true}'')),
     now = 0,
     logCreateErr = (\<lambda>l. None),
     taskCreate = (\<lambda>t. Inr 1),
     taskFirst = (\<lambda>param. if param = ''1'' then Inr (zeroTask\<lparr>Task.ID := 1\<rparr>)
        else Inl ''record not found'')\<rparr>"

definition taskA :: Task where
  "taskA = \<lparr>ID = 1, Name = ''a'', CronExpr = ''*/5 * * * * *'', URL = ''http://example.test/ok'',
     Method = ''GET'', Headers = [], Body = [], Timeout = 10, Logs = [], NextRun = 0\<rparr>"

definition taskB :: Task where
  "taskB = \<lparr>ID = 2, Name = ''b'', CronExpr = ''not-a-cron'', URL = ''http://example.test/post'',
     Method = ''POST'', Headers = ''{\"Content-Type\":\"text/plain\"}'', Body = ''{}'',
     Timeout = 3, Logs = [], NextRun = 0\<rparr>"

text \<open>The state in which \<open>taskA\<close> has been registered once.\<close>

definition stateA :: state where
  "stateA = registerTask envA 0 (snd (alloc taskA (initState [taskA] [])))"

text \<open>The state in which \<open>taskB\<close>, whose cron expression does not parse, has been
  registered.\<close>

definition stateB :: state where
  "stateB = registerTask envA 0 (snd (alloc taskB (initState [taskB] [])))"

text \<open>The state in which \<open>main\<close> enters the serving loop when the store is empty.\<close>

definition servingEmpty :: state where
  "servingEmpty =
     printf ServerStarted
       ((loadTasksFromDB envA (initState [] []))
          \<lparr>c := Start (c (loadTasksFromDB envA (initState [] [])))\<rparr>)"

text \<open>A create request without identifier, to which the store assigns identifier 1, raced
  by a delete request for identifier 1, for which the store finds the row just created.\<close>

definition raced :: state where
  "raced =
     createRacedByDelete envA (Inr (taskA\<lparr>Task.ID := 0\<rparr>))
       (envA\<lparr>taskFirst := \<lambda>param. Inr taskA\<rparr>) ''1'' servingEmpty"

text \<open>Then a create request that carries identifier 1, which the store accepts since it
  has no such row, served without interruption.\<close>

definition racedAgain :: state where
  "racedAgain = snd (handleCreate envA (Inr taskA) raced)"

section \<open>Properties\<close>

subsection \<open>Traces\<close>

lemma sinkAppends_append: "sinkAppends (xs @ ys) = sinkAppends xs @ sinkAppends ys"
  by (induction xs rule: sinkAppends.induct) simp_all

lemma sentRequests_append: "sentRequests (xs @ ys) = sentRequests xs @ sentRequests ys"
  by (induction xs rule: sentRequests.induct) simp_all

lemma appendLog_trace:
  "trace (appendLog e tid st rb s) = trace s @
     SinkAppend \<lparr>Log.ID = 0, TaskID = tid, Time = now e, StatusText = st, ResponseBody = rb\<rparr> #
     (case logCreateErr e
             \<lparr>Log.ID = 0, TaskID = tid, Time = now e, StatusText = st, ResponseBody = rb\<rparr> of
        Some err \<Rightarrow> [LogWriteFailed tid err]
      | None \<Rightarrow> [])"
  by (simp add: appendLog_def printf_def Let_def split: option.splits)

lemma appendLog_logTable:
  "logTable (appendLog e tid st rb s) = logTable s @
     (case logCreateErr e
             \<lparr>Log.ID = 0, TaskID = tid, Time = now e, StatusText = st, ResponseBody = rb\<rparr> of
        Some err \<Rightarrow> []
      | None \<Rightarrow> [\<lparr>Log.ID = 0, TaskID = tid, Time = now e, StatusText = st, ResponseBody = rb\<rparr>])"
  by (simp add: appendLog_def printf_def Let_def split: option.splits)

lemma appendLog_sink:
  "sinkAppends (trace (appendLog e tid st rb s)) = sinkAppends (trace s) @
     [\<lparr>Log.ID = 0, TaskID = tid, Time = now e, StatusText = st, ResponseBody = rb\<rparr>]"
  by (simp add: appendLog_trace sinkAppends_append split: option.splits)

lemma appendLog_sent:
  "sentRequests (trace (appendLog e tid st rb s)) = sentRequests (trace s)"
  by (simp add: appendLog_trace sentRequests_append split: option.splits)

lemma appendLog_registry:
  "tasks (appendLog e tid st rb s) = tasks s"
  "cronIDs (appendLog e tid st rb s) = cronIDs s"
  "c (appendLog e tid st rb s) = c s"
  "heap (appendLog e tid st rb s) = heap s"
  "nextAddr (appendLog e tid st rb s) = nextAddr s"
  "taskTable (appendLog e tid st rb s) = taskTable s"
  by (simp_all add: appendLog_def printf_def Let_def split: option.splits)

lemma setHeaders_snd_trace:
  "trace (snd (setHeaders e t req s)) = trace s @
     (if Headers t \<noteq> [] then
        (case jsonHeaders e (Headers t) of
           Inl err \<Rightarrow> [HeaderJSONInvalid (Task.ID t) err]
         | Inr hs \<Rightarrow> [])
      else [])"
  by (simp add: setHeaders_def printf_def split: sum.splits)

lemma setHeaders_snd_rest:
  "logTable (snd (setHeaders e t req s)) = logTable s"
  "tasks (snd (setHeaders e t req s)) = tasks s"
  "cronIDs (snd (setHeaders e t req s)) = cronIDs s"
  "c (snd (setHeaders e t req s)) = c s"
  "heap (snd (setHeaders e t req s)) = heap s"
  "nextAddr (snd (setHeaders e t req s)) = nextAddr s"
  "taskTable (snd (setHeaders e t req s)) = taskTable s"
  by (simp_all add: setHeaders_def printf_def split: sum.splits)

lemma setHeaders_snd_sink:
  "sinkAppends (trace (snd (setHeaders e t req s))) = sinkAppends (trace s)"
  "sentRequests (trace (snd (setHeaders e t req s))) = sentRequests (trace s)"
  by (simp_all add: setHeaders_snd_trace sinkAppends_append sentRequests_append split: sum.splits)

lemma setHeaders_fst_state: "fst (setHeaders e t req s) = fst (setHeaders e t req s')"
  by (simp add: setHeaders_def split: sum.splits)

subsection \<open>The record written by runTask\<close>

lemma runTask_None: "tasks s tid = None \<Longrightarrow> runTask e tid s = printf (TaskNotFound tid) s"
  by (simp add: runTask_def)

lemma runTask_sink:
  assumes "tasks s tid = Some p"
  shows "\<exists>st rb.
     sinkAppends (trace (runTask e tid s)) = sinkAppends (trace s) @
       [\<lparr>Log.ID = 0, TaskID = Task.ID (heap s p), Time = now e, StatusText = st,
         ResponseBody = rb\<rparr>] \<and>
     logTable (runTask e tid s) = logTable s @
       (case logCreateErr e \<lparr>Log.ID = 0, TaskID = Task.ID (heap s p), Time = now e,
                StatusText = st, ResponseBody = rb\<rparr> of
          Some err \<Rightarrow> []
        | None \<Rightarrow> [\<lparr>Log.ID = 0, TaskID = Task.ID (heap s p), Time = now e, StatusText = st,
                     ResponseBody = rb\<rparr>])"
  using assms
  by (simp add: runTask_def Let_def case_prod_beta appendLog_sink appendLog_logTable printf_def
        sinkAppends_append setHeaders_snd_sink setHeaders_snd_rest
        split: sum.splits http_result.splits)

lemma runTask_sink_create_failed:
  "tasks s tid = Some p \<Longrightarrow> createRequest e (heap s p) = Inl err \<Longrightarrow>
   sinkAppends (trace (runTask e tid s)) = sinkAppends (trace s) @
     [\<lparr>Log.ID = 0, TaskID = Task.ID (heap s p), Time = now e,
       StatusText = msgCreateFailed @ err, ResponseBody = []\<rparr>]"
  by (simp add: runTask_def Let_def appendLog_sink printf_def sinkAppends_append)

lemma runTask_sink_sent:
  "tasks s tid = Some p \<Longrightarrow> createRequest e (heap s p) = Inr req0 \<Longrightarrow>
   sinkAppends (trace (runTask e tid s)) = sinkAppends (trace s) @
     [case clientDo e \<lparr>Client_Timeout = timeoutDuration (heap s p)\<rparr>
             (fst (setHeaders e (heap s p) req0 s)) of
        TransportError err \<Rightarrow>
          \<lparr>Log.ID = 0, TaskID = Task.ID (heap s p), Time = now e,
            StatusText = msgRequestFailed @ err, ResponseBody = []\<rparr>
      | Response code (Inl err) \<Rightarrow>
          \<lparr>Log.ID = 0, TaskID = Task.ID (heap s p), Time = now e,
            StatusText = msgStatus @ itoa code @ msgReadFailed @ err, ResponseBody = []\<rparr>
      | Response code (Inr body) \<Rightarrow>
          \<lparr>Log.ID = 0, TaskID = Task.ID (heap s p), Time = now e,
            StatusText = msgStatus @ itoa code, ResponseBody = body\<rparr>]"
  using setHeaders_fst_state[of e "heap s p" req0
          "printf (TaskStart (Task.ID (heap s p)) (Name (heap s p))) s" s]
  by (simp add: runTask_def Let_def case_prod_beta appendLog_sink sinkAppends_append
        setHeaders_snd_sink printf_def split: http_result.splits sum.splits)

lemma runTask_registry:
  "tasks (runTask e tid s) = tasks s"
  "cronIDs (runTask e tid s) = cronIDs s"
  "c (runTask e tid s) = c s"
  "heap (runTask e tid s) = heap s"
  "nextAddr (runTask e tid s) = nextAddr s"
  "taskTable (runTask e tid s) = taskTable s"
  by (simp_all add: runTask_def Let_def case_prod_beta appendLog_registry setHeaders_snd_rest
        printf_def split: option.splits sum.splits http_result.splits)

subsection \<open>The concrete state\<close>

lemma stateA_tasks: "tasks stateA = [1 \<mapsto> 0]"
  by (simp add: stateA_def registerTask_def registerTask_store_def registerTask_add_def
        registerTask_handle_def AddFunc_def alloc_def initState_def printf_def
        envA_def taskA_def cron_New_def Let_def)

lemma stateA_cronIDs: "cronIDs stateA = [1 \<mapsto> 1]"
  by (simp add: stateA_def registerTask_def registerTask_store_def registerTask_add_def
        registerTask_handle_def AddFunc_def alloc_def initState_def printf_def
        envA_def taskA_def cron_New_def Let_def)

lemma stateA_c: "c stateA = \<lparr>entries = [(1, ''*/5 * * * * *'', 0)], nextID = 1, running = False\<rparr>"
  by (simp add: stateA_def registerTask_def registerTask_store_def registerTask_add_def
        registerTask_handle_def AddFunc_def alloc_def initState_def printf_def
        envA_def taskA_def cron_New_def Let_def)

lemma stateA_heap: "heap stateA 0 = taskA"
  by (simp add: stateA_def registerTask_def registerTask_store_def registerTask_add_def
        registerTask_handle_def AddFunc_def alloc_def initState_def printf_def
        envA_def taskA_def cron_New_def Let_def)

lemma stateA_trace: "trace stateA = [RegisterOk 1 ''a'' ''*/5 * * * * *'']"
  by (simp add: stateA_def registerTask_def registerTask_store_def registerTask_add_def
        registerTask_handle_def AddFunc_def alloc_def initState_def printf_def
        envA_def taskA_def cron_New_def Let_def)

lemma stateA_tables: "logTable stateA = []" "taskTable stateA = [taskA]" "nextAddr stateA = 1"
  by (simp_all add: stateA_def registerTask_def registerTask_store_def registerTask_add_def
        registerTask_handle_def AddFunc_def alloc_def initState_def printf_def
        envA_def taskA_def cron_New_def Let_def)

subsection \<open>Claims about the dispatcher\<close>

text \<open>
  C2. An invocation of \<open>runTask\<close> on an identifier that is in the task registry hands
  exactly one execution record to the store, whatever happens on the way (the request
  cannot be built, the transport fails, the body cannot be read, or all goes well): the
  records handed over grow by exactly one, which carries the identifier of the task, and
  the table of the store receives that record and nothing else (nothing when the store
  itself refuses the write). On an identifier that is not in the registry, \<open>runTask\<close>
  only prints that the task was not found: nothing is handed to the store and the rest
  of the state is as before.
\<close>

theorem runTask_exactly_one_record:
  "(tasks s tid = Some p \<longrightarrow>
      (\<exists>log. sinkAppends (trace (runTask e tid s)) = sinkAppends (trace s) @ [log] \<and>
             TaskID log = Task.ID (heap s p) \<and>
             logTable (runTask e tid s) =
               logTable s @ (case logCreateErr e log of Some err \<Rightarrow> [] | None \<Rightarrow> [log])))
   \<and> (tasks s tid = None \<longrightarrow> runTask e tid s = printf (TaskNotFound tid) s)"
proof (intro conjI impI)
  assume "tasks s tid = Some p"
  from runTask_sink[OF this, of e]
  show "\<exists>log. sinkAppends (trace (runTask e tid s)) = sinkAppends (trace s) @ [log] \<and>
             TaskID log = Task.ID (heap s p) \<and>
             logTable (runTask e tid s) =
               logTable s @ (case logCreateErr e log of Some err \<Rightarrow> [] | None \<Rightarrow> [log])"
    by force
next
  assume "tasks s tid = None"
  then show "runTask e tid s = printf (TaskNotFound tid) s"
    by (rule runTask_None)
qed

theorem runTask_exactly_one_record_witness:
  "tasks stateA 1 = Some 0 \<and>
   length (sinkAppends (trace (runTask envA 1 stateA))) = 1 \<and>
   length (logTable (runTask envA 1 stateA)) = 1 \<and>
   tasks stateA 7 = None \<and>
   sinkAppends (trace (runTask envA 7 stateA)) = [] \<and>
   logTable (runTask envA 7 stateA) = [] \<and>
   trace (runTask envA 7 stateA) = [RegisterOk 1 ''a'' ''*/5 * * * * *'', TaskNotFound 7]"
  using runTask_exactly_one_record[of stateA 1 0 envA]
    runTask_exactly_one_record[of stateA 7 0 envA]
  by (auto simp add: stateA_tasks stateA_trace stateA_tables printf_def envA_def)

subsection \<open>Decimal rendering\<close>

declare digits.simps [simp del]

lemma digits_nonempty: "digits n \<noteq> []"
  by (subst digits.simps) simp

lemma digits_last: "last (digits n) = char_of (48 + n mod 10)"
  by (subst digits.simps) simp

lemma digits_butlast: "butlast (digits n) = (if n < 10 then [] else digits (n div 10))"
  by (subst digits.simps) simp

lemma digit_char_inj: "a < 10 \<Longrightarrow> b < 10 \<Longrightarrow> char_of (48 + a) = (char_of (48 + b) :: char) \<Longrightarrow> a = (b::nat)"
proof -
  assume a: "a < 10" and b: "b < 10" and eq: "char_of (48 + a) = (char_of (48 + b) :: char)"
  from eq have "of_char (char_of (48 + a) :: char) = (of_char (char_of (48 + b) :: char) :: nat)" by simp
  with a b show "a = b" by (simp add: of_char_of)
qed

lemma digits_inj: "digits n = digits m \<Longrightarrow> n = m"
proof (induction n arbitrary: m rule: less_induct)
  case (less n)
  from less.prems have l: "last (digits n) = last (digits m)" and b: "butlast (digits n) = butlast (digits m)"
    by simp_all
  from l have md: "n mod 10 = m mod 10"
    by (simp add: digits_last)
  have dv: "n div 10 = m div 10"
  proof (cases "n < 10")
    case True
    with b have "m < 10" using digits_nonempty[of "m div 10"] by (auto simp: digits_butlast split: if_splits)
    with True show ?thesis by simp
  next
    case False
    with b have m: "\<not> m < 10" using digits_nonempty[of "n div 10"] by (auto simp: digits_butlast split: if_splits)
    with False b have "digits (n div 10) = digits (m div 10)" by (simp add: digits_butlast)
    moreover from False have "n div 10 < n" by simp
    ultimately show ?thesis using less.IH by blast
  qed
  have "n = 10 * (n div 10) + n mod 10" by simp
  also have "\<dots> = 10 * (m div 10) + m mod 10" using md dv by simp
  also have "\<dots> = m" by simp
  finally show ?case .
qed

lemma digits_hd_not_minus: "hd (digits n) \<noteq> CHR ''-''"
proof (induction n rule: less_induct)
  case (less n)
  show ?case
  proof (cases "n < 10")
    case True
    have "char_of (48 + n) \<noteq> CHR ''-''"
    proof
      assume "char_of (48 + n) = CHR ''-''"
      then have "of_char (char_of (48 + n) :: char) = (of_char (CHR ''-'') :: nat)" by simp
      then show False using True by (simp add: of_char_of)
    qed
    then show ?thesis using True by (subst digits.simps) simp
  next
    case False
    then have "n div 10 < n" by simp
    from less.IH[OF this] show ?thesis using False digits_nonempty[of "n div 10"]
      by (subst digits.simps) simp
  qed
qed

lemma itoa_inj: "itoa a = itoa b \<Longrightarrow> a = b"
proof -
  assume eq: "itoa a = itoa b"
  consider "a < 0" "b < 0" | "a < 0" "\<not> b < 0" | "\<not> a < 0" "b < 0" | "\<not> a < 0" "\<not> b < 0"
    by blast
  then show "a = b"
  proof cases
    case 1
    with eq have "digits (nat (- a)) = digits (nat (- b))" by (simp add: itoa_def)
    then have "nat (- a) = nat (- b)" by (rule digits_inj)
    with 1 show ?thesis by simp
  next
    case 2
    with eq have "hd (digits (nat b)) = CHR ''-''" by (simp add: itoa_def) (metis list.sel(1))
    then show ?thesis using digits_hd_not_minus by blast
  next
    case 3
    with eq have "hd (digits (nat a)) = CHR ''-''" by (simp add: itoa_def)
    then show ?thesis using digits_hd_not_minus by blast
  next
    case 4
    with eq have "digits (nat a) = digits (nat b)" by (simp add: itoa_def)
    then have "nat a = nat b" by (rule digits_inj)
    with 4 show ?thesis by simp
  qed
qed

lemma itoa_200: "itoa 200 = ''200''"
  by code_simp

lemma envA_simps:
  "cronParseErr envA spec = (if spec = ''not-a-cron'' then Some ''bad spec'' else None)"
  "newRequestErr envA m u = (if u = [] then Some ''empty url'' else None)"
  "canonicalKey envA k = k"
  "clientDo envA cl req = Response 200 (Inr ''{\"ok\":true}'')"
  "now envA = 0"
  "logCreateErr envA l = None"
  "taskCreate envA t = Inr 1"
  by (simp_all add: envA_def)

lemma taskA_simps:
  "Task.ID taskA = 1" "Name taskA = ''a''" "CronExpr taskA = ''*/5 * * * * *''"
  "URL taskA = ''http://example.test/ok''" "Method taskA = ''GET''" "Headers taskA = []"
  "Body taskA = []" "Timeout taskA = 10"
  by (simp_all add: taskA_def)

text \<open>
  C6. The execution record that \<open>runTask\<close> hands to the store has this shape. When the
  request cannot be constructed, when the transport fails or when the response body
  cannot be read, the status summary is a failure description (the fixed failure text
  followed by the error, after the status code in the last case) and the response payload
  is the empty string. On success the status summary is the fixed status text followed
  by the decimal rendering of the numeric response status, from which the status can be
  read back (the rendering is injective), and the payload is the whole response body,
  whatever its length.
\<close>

theorem runTask_record_shape:
  assumes "tasks s tid = Some p"
  shows "(\<exists>log. sinkAppends (trace (runTask e tid s)) = sinkAppends (trace s) @ [log] \<and>
     (case createRequest e (heap s p) of
        Inl err \<Rightarrow> StatusText log = msgCreateFailed @ err \<and> ResponseBody log = []
      | Inr req0 \<Rightarrow>
         (case clientDo e \<lparr>Client_Timeout = timeoutDuration (heap s p)\<rparr>
                 (fst (setHeaders e (heap s p) req0 s)) of
            TransportError err \<Rightarrow>
              StatusText log = msgRequestFailed @ err \<and> ResponseBody log = []
          | Response code (Inl err) \<Rightarrow>
              StatusText log = msgStatus @ itoa code @ msgReadFailed @ err \<and>
              ResponseBody log = []
          | Response code (Inr body) \<Rightarrow>
              StatusText log = msgStatus @ itoa code \<and> ResponseBody log = body)))
   \<and> inj itoa"
proof
  show "inj itoa" by (rule injI) (rule itoa_inj)
next
  show "\<exists>log. sinkAppends (trace (runTask e tid s)) = sinkAppends (trace s) @ [log] \<and>
     (case createRequest e (heap s p) of
        Inl err \<Rightarrow> StatusText log = msgCreateFailed @ err \<and> ResponseBody log = []
      | Inr req0 \<Rightarrow>
         (case clientDo e \<lparr>Client_Timeout = timeoutDuration (heap s p)\<rparr>
                 (fst (setHeaders e (heap s p) req0 s)) of
            TransportError err \<Rightarrow>
              StatusText log = msgRequestFailed @ err \<and> ResponseBody log = []
          | Response code (Inl err) \<Rightarrow>
              StatusText log = msgStatus @ itoa code @ msgReadFailed @ err \<and>
              ResponseBody log = []
          | Response code (Inr body) \<Rightarrow>
              StatusText log = msgStatus @ itoa code \<and> ResponseBody log = body))"
  proof (cases "createRequest e (heap s p)")
    case (Inl err)
    then show ?thesis
      using runTask_sink_create_failed[OF assms Inl] by simp
  next
    case (Inr req0)
    then show ?thesis
      using runTask_sink_sent[OF assms Inr]
      by (simp split: http_result.splits sum.splits)
  qed
qed

theorem runTask_record_shape_witness:
  "tasks stateA 1 = Some 0 \<and>
   (\<exists>log. sinkAppends (trace (runTask envA 1 stateA)) = [log] \<and>
      StatusText log = msgStatus @ ''200'' \<and> ResponseBody log = ''{\"ok\":true}'') \<and>
   (\<exists>log. sinkAppends (trace (runTask
        (envA\<lparr>clientDo := \<lambda>cl req. Response 200 (Inl ''unexpected EOF'')\<rparr>) 1 stateA)) = [log] \<and>
      StatusText log = msgStatus @ ''200'' @ msgReadFailed @ ''unexpected EOF'' \<and>
      ResponseBody log = []) \<and>
   (\<exists>log. sinkAppends (trace (runTask
        (envA\<lparr>clientDo := \<lambda>cl req. TransportError ''timeout''\<rparr>) 1 stateA)) = [log] \<and>
      StatusText log = msgRequestFailed @ ''timeout'' \<and> ResponseBody log = []) \<and>
   (\<exists>log. sinkAppends (trace (runTask
        (envA\<lparr>newRequestErr := \<lambda>m u. Some ''bad url''\<rparr>) 1 stateA)) = [log] \<and>
      StatusText log = msgCreateFailed @ ''bad url'' \<and> ResponseBody log = [])"
proof -
  have t: "tasks stateA 1 = Some 0" by (simp add: stateA_tasks)
  show ?thesis
    using t runTask_record_shape[OF t, of envA]
      runTask_record_shape[OF t, of "envA\<lparr>clientDo := \<lambda>cl req. Response 200 (Inl ''unexpected EOF'')\<rparr>"]
      runTask_record_shape[OF t, of "envA\<lparr>clientDo := \<lambda>cl req. TransportError ''timeout''\<rparr>"]
      runTask_record_shape[OF t, of "envA\<lparr>newRequestErr := \<lambda>m u. Some ''bad url''\<rparr>"]
    by (simp add: stateA_heap stateA_trace createRequest_def http_NewRequest_def
          envA_simps taskA_simps itoa_200)
qed

subsection \<open>The request built by runTask\<close>

lemma Header_Set_fields:
  "Req_Method (Header_Set e k v req) = Req_Method req"
  "Req_URL (Header_Set e k v req) = Req_URL req"
  "Req_Body (Header_Set e k v req) = Req_Body req"
  "Req_Header (Header_Set e k v req) = (Req_Header req)(canonicalKey e k \<mapsto> v)"
  by (simp_all add: Header_Set_def)

lemma fold_Header_Set:
  "fold (\<lambda>(key, val). Header_Set e key val) hs req =
     req\<lparr>Req_Header := Req_Header req ++ map_of (rev (map (\<lambda>(k, v). (canonicalKey e k, v)) hs))\<rparr>"
proof (induction hs arbitrary: req)
  case Nil
  show ?case by simp
next
  case (Cons h hs)
  obtain k v where h: "h = (k, v)" by (cases h)
  have "fold (\<lambda>(key, val). Header_Set e key val) (h # hs) req =
        fold (\<lambda>(key, val). Header_Set e key val) hs (Header_Set e k v req)"
    by (simp add: h)
  also have "\<dots> = (Header_Set e k v req)\<lparr>Req_Header := Req_Header (Header_Set e k v req) ++
        map_of (rev (map (\<lambda>(k, v). (canonicalKey e k, v)) hs))\<rparr>"
    by (rule Cons.IH)
  also have "\<dots> = req\<lparr>Req_Header := Req_Header req ++
        map_of (rev (map (\<lambda>(k, v). (canonicalKey e k, v)) (h # hs)))\<rparr>"
    by (simp add: h Header_Set_def map_add_assoc[symmetric])
  finally show ?case .
qed

lemma createRequest_ok:
  "newRequestErr e (if Method t = ''POST'' then ''POST'' else ''GET'') (URL t) = None \<Longrightarrow>
   createRequest e t = Inr
     \<lparr>Req_Method = (if Method t = ''POST'' then ''POST'' else ''GET''),
      Req_URL = URL t,
      Req_Header = (if Method t = ''POST''
                    then [canonicalKey e ''Content-Type'' \<mapsto> ''application/json'']
                    else Map.empty),
      Req_Body = (if Method t = ''POST'' then Some (Body t) else None)\<rparr>"
  by (simp add: createRequest_def http_NewRequest_def Header_Set_def split: if_splits)

lemma setHeaders_fst:
  "fst (setHeaders e t req s) =
     req\<lparr>Req_Header := Req_Header req ++
       (if Headers t = [] then Map.empty
        else case jsonHeaders e (Headers t) of
               Inl err \<Rightarrow> Map.empty
             | Inr hs \<Rightarrow> map_of (rev (map (\<lambda>(k, v). (canonicalKey e k, v)) hs)))\<rparr>"
  by (simp add: setHeaders_def fold_Header_Set split: sum.splits)

lemma runTask_sent:
  "tasks s tid = Some p \<Longrightarrow> createRequest e (heap s p) = Inr req0 \<Longrightarrow>
   sentRequests (trace (runTask e tid s)) = sentRequests (trace s) @
     [(\<lparr>Client_Timeout = timeoutDuration (heap s p)\<rparr>, fst (setHeaders e (heap s p) req0 s))]"
  using setHeaders_fst_state[of e "heap s p" req0
          "printf (TaskStart (Task.ID (heap s p)) (Name (heap s p))) s" s]
  by (simp add: runTask_def Let_def case_prod_beta appendLog_sent sentRequests_append
        setHeaders_snd_sink printf_def split: http_result.splits sum.splits)

lemma runTask_not_sent:
  "tasks s tid = Some p \<Longrightarrow> createRequest e (heap s p) = Inl err \<Longrightarrow>
   sentRequests (trace (runTask e tid s)) = sentRequests (trace s)"
  by (simp add: runTask_def Let_def case_prod_beta appendLog_sent sentRequests_append
        setHeaders_snd_sink printf_def split: http_result.splits sum.splits)

lemma runTask_header_warning:
  "tasks s tid = Some p \<Longrightarrow> createRequest e (heap s p) = Inr req0 \<Longrightarrow>
   Headers (heap s p) \<noteq> [] \<Longrightarrow> jsonHeaders e (Headers (heap s p)) = Inl err \<Longrightarrow>
   HeaderJSONInvalid (Task.ID (heap s p)) err \<in> set (trace (runTask e tid s))"
  by (simp add: runTask_def Let_def case_prod_beta appendLog_trace
        setHeaders_snd_trace printf_def split: http_result.splits sum.splits)

lemma map_of_rev_distinct:
  "distinct (map fst xs) \<Longrightarrow> (k, v) \<in> set xs \<Longrightarrow> map_of (rev xs) k = Some v"
  by (subst map_of_eq_Some_iff) (simp_all add: distinct_map)

lemma stateB_tasks: "tasks stateB = [2 \<mapsto> 0]"
  by (simp add: stateB_def registerTask_def registerTask_store_def registerTask_add_def
        registerTask_handle_def AddFunc_def alloc_def initState_def printf_def
        envA_def taskB_def cron_New_def Let_def)

lemma stateB_cronIDs: "cronIDs stateB = Map.empty"
  by (simp add: stateB_def registerTask_def registerTask_store_def registerTask_add_def
        registerTask_handle_def AddFunc_def alloc_def initState_def printf_def
        envA_def taskB_def cron_New_def Let_def)

lemma stateB_c: "c stateB = cron_New"
  by (simp add: stateB_def registerTask_def registerTask_store_def registerTask_add_def
        registerTask_handle_def AddFunc_def alloc_def initState_def printf_def
        envA_def taskB_def cron_New_def Let_def)

lemma stateB_heap: "heap stateB 0 = taskB"
  by (simp add: stateB_def registerTask_def registerTask_store_def registerTask_add_def
        registerTask_handle_def AddFunc_def alloc_def initState_def printf_def
        envA_def taskB_def cron_New_def Let_def)

lemma stateB_trace: "trace stateB = [RegisterFailed 2 ''b'' ''bad spec'']"
  by (simp add: stateB_def registerTask_def registerTask_store_def registerTask_add_def
        registerTask_handle_def AddFunc_def alloc_def initState_def printf_def
        envA_def taskB_def cron_New_def Let_def)

lemma taskB_simps:
  "Task.ID taskB = 2" "Name taskB = ''b''" "CronExpr taskB = ''not-a-cron''"
  "URL taskB = ''http://example.test/post''" "Method taskB = ''POST''"
  "Headers taskB = ''{\"Content-Type\":\"text/plain\"}''"
  "Body taskB = ''{}''" "Timeout taskB = 3"
  by (simp_all add: taskB_def)

lemma envA_jsonHeaders:
  "jsonHeaders envA ''{\"Content-Type\":\"text/plain\"}'' = Inr [(''Content-Type'', ''text/plain'')]"
  by (simp add: envA_def)

text \<open>
  C5. For a task in the registry whose request can be constructed, \<open>runTask\<close> hands exactly
  one request to the HTTP client, built as follows. The method is POST when the
  definition's method is the string \<open>POST\<close> and GET in every other case (unset, or any
  other text). A POST carries the definition's stored body and starts from the default
  header \<open>Content-Type: application/json\<close>; a GET carries no body and no default header.
  When a header text is configured and decodes, the configured headers are laid over the
  defaults under their canonical names, so that a configured header replaces a default of
  the same name (and, the canonical names being distinct, every configured header is on
  the request with its value). When the header text does not decode, a warning is printed
  and the request is sent with the defaults only.
\<close>

theorem runTask_request_construction:
  assumes "tasks s tid = Some p"
    and "newRequestErr e (if Method (heap s p) = ''POST'' then ''POST'' else ''GET'')
           (URL (heap s p)) = None"
  shows "let t = heap s p;
             defaults = (if Method t = ''POST''
                         then [canonicalKey e ''Content-Type'' \<mapsto> ''application/json'']
                         else Map.empty)
         in \<exists>cl req.
              sentRequests (trace (runTask e tid s)) = sentRequests (trace s) @ [(cl, req)] \<and>
              Req_Method req = (if Method t = ''POST'' then ''POST'' else ''GET'') \<and>
              Req_URL req = URL t \<and>
              Req_Body req = (if Method t = ''POST'' then Some (Body t) else None) \<and>
              (if Headers t = [] then Req_Header req = defaults
               else case jsonHeaders e (Headers t) of
                      Inl err \<Rightarrow>
                        Req_Header req = defaults \<and>
                        HeaderJSONInvalid (Task.ID t) err \<in> set (trace (runTask e tid s))
                    | Inr hs \<Rightarrow>
                        Req_Header req =
                          defaults ++ map_of (rev (map (\<lambda>(k, v). (canonicalKey e k, v)) hs)) \<and>
                        (distinct (map (\<lambda>(k, v). canonicalKey e k) hs) \<longrightarrow>
                           (\<forall>(k, v) \<in> set hs. Req_Header req (canonicalKey e k) = Some v)))"
proof -
  let ?t = "heap s p"
  let ?defaults = "if Method ?t = ''POST''
                   then [canonicalKey e ''Content-Type'' \<mapsto> ''application/json'']
                   else Map.empty"
  let ?req0 = "\<lparr>Req_Method = (if Method ?t = ''POST'' then ''POST'' else ''GET''),
      Req_URL = URL ?t, Req_Header = ?defaults,
      Req_Body = (if Method ?t = ''POST'' then Some (Body ?t) else None)\<rparr>"
  have cr: "createRequest e ?t = Inr ?req0"
    using createRequest_ok[OF assms(2)] .
  let ?req = "fst (setHeaders e ?t ?req0 s)"
  have sent: "sentRequests (trace (runTask e tid s)) = sentRequests (trace s) @
     [(\<lparr>Client_Timeout = timeoutDuration ?t\<rparr>, ?req)]"
    by (rule runTask_sent[OF assms(1) cr])
  have fields: "Req_Method ?req = (if Method ?t = ''POST'' then ''POST'' else ''GET'')"
    "Req_URL ?req = URL ?t"
    "Req_Body ?req = (if Method ?t = ''POST'' then Some (Body ?t) else None)"
    by (simp_all add: setHeaders_fst)
  have hdr: "if Headers ?t = [] then Req_Header ?req = ?defaults
     else case jsonHeaders e (Headers ?t) of
            Inl err \<Rightarrow>
              Req_Header ?req = ?defaults \<and>
              HeaderJSONInvalid (Task.ID ?t) err \<in> set (trace (runTask e tid s))
          | Inr hs \<Rightarrow>
              Req_Header ?req =
                ?defaults ++ map_of (rev (map (\<lambda>(k, v). (canonicalKey e k, v)) hs)) \<and>
              (distinct (map (\<lambda>(k, v). canonicalKey e k) hs) \<longrightarrow>
                 (\<forall>(k, v) \<in> set hs. Req_Header ?req (canonicalKey e k) = Some v))"
  proof (cases "Headers ?t = []")
    case True
    then show ?thesis by (simp add: setHeaders_fst)
  next
    case ne: False
    show ?thesis
    proof (cases "jsonHeaders e (Headers ?t)")
      case (Inl err)
      with ne runTask_header_warning[OF assms(1) cr ne Inl] show ?thesis
        by (simp add: setHeaders_fst)
    next
      case (Inr hs)
      have eq: "Req_Header ?req =
          ?defaults ++ map_of (rev (map (\<lambda>(k, v). (canonicalKey e k, v)) hs))"
        using ne Inr by (simp add: setHeaders_fst)
      have "Req_Header ?req (canonicalKey e k) = Some v"
        if d: "distinct (map (\<lambda>(k, v). canonicalKey e k) hs)" and kv: "(k, v) \<in> set hs" for k v
      proof -
        have m: "map fst (map (\<lambda>(k, v). (canonicalKey e k, v)) hs) =
            map (\<lambda>(k, v). canonicalKey e k) hs"
          by (simp add: case_prod_beta)
        have "distinct (map fst (map (\<lambda>(k, v). (canonicalKey e k, v)) hs))"
          by (simp only: m d)
        moreover from kv have "(canonicalKey e k, v) \<in> set (map (\<lambda>(k, v). (canonicalKey e k, v)) hs)"
          by force
        ultimately have "map_of (rev (map (\<lambda>(k, v). (canonicalKey e k, v)) hs)) (canonicalKey e k) = Some v"
          by (rule map_of_rev_distinct)
        then show ?thesis by (simp add: eq map_add_def)
      qed
      with ne Inr eq show ?thesis by auto
    qed
  qed
  show ?thesis
    unfolding Let_def using sent fields hdr by blast
qed

theorem runTask_request_construction_witness:
  "tasks stateB 2 = Some 0 \<and>
   newRequestErr envA ''POST'' (URL taskB) = None \<and>
   (\<exists>cl req. sentRequests (trace (runTask envA 2 stateB)) = [(cl, req)] \<and>
      Req_Method req = ''POST'' \<and> Req_Body req = Some ''{}'' \<and>
      Req_Header req = [''Content-Type'' \<mapsto> ''text/plain'']) \<and>
   (\<exists>cl req. sentRequests (trace (runTask
        (envA\<lparr>jsonHeaders := \<lambda>txt. Inl ''unexpected end of JSON input''\<rparr>) 2 stateB)) = [(cl, req)] \<and>
      Req_Header req = [''Content-Type'' \<mapsto> ''application/json''] \<and>
      HeaderJSONInvalid 2 ''unexpected end of JSON input'' \<in> set (trace (runTask
        (envA\<lparr>jsonHeaders := \<lambda>txt. Inl ''unexpected end of JSON input''\<rparr>) 2 stateB))) \<and>
   tasks stateA 1 = Some 0 \<and>
   newRequestErr envA ''GET'' (URL taskA) = None \<and>
   (\<exists>cl req. sentRequests (trace (runTask envA 1 stateA)) = [(cl, req)] \<and>
      Req_Method req = ''GET'' \<and> Req_Body req = None \<and> Req_Header req = Map.empty)"
proof -
  have b: "tasks stateB 2 = Some 0" by (simp add: stateB_tasks)
  have a: "tasks stateA 1 = Some 0" by (simp add: stateA_tasks)
  have nb: "newRequestErr e (if Method (heap stateB 0) = ''POST'' then ''POST'' else ''GET'')
       (URL (heap stateB 0)) = None" if "newRequestErr e = newRequestErr envA" for e
    using that by (simp add: stateB_heap taskB_simps envA_simps)
  have na: "newRequestErr envA (if Method (heap stateA 0) = ''POST'' then ''POST'' else ''GET'')
       (URL (heap stateA 0)) = None"
    by (simp add: stateA_heap taskA_simps envA_simps)
  show ?thesis
    using a b runTask_request_construction[OF b nb, of envA]
      runTask_request_construction[OF b nb,
        of "envA\<lparr>jsonHeaders := \<lambda>txt. Inl ''unexpected end of JSON input''\<rparr>"]
      runTask_request_construction[OF a na]
    by (simp add: Let_def stateA_heap stateB_heap stateA_trace stateB_trace taskA_simps
          taskB_simps envA_simps envA_jsonHeaders) blast
qed

subsection \<open>The registry\<close>

lemma registerTask_fail:
  "cronParseErr e (CronExpr (heap s t)) = Some err \<Longrightarrow>
   registerTask e t s =
     s\<lparr>tasks := (tasks s)(Task.ID (heap s t) \<mapsto> t),
       trace := trace s @ [RegisterFailed (Task.ID (heap s t)) (Name (heap s t)) err]\<rparr>"
  by (simp add: registerTask_def registerTask_store_def registerTask_add_def
        registerTask_handle_def AddFunc_def printf_def Let_def)

lemma registerTask_ok:
  "cronParseErr e (CronExpr (heap s t)) = None \<Longrightarrow>
   registerTask e t s =
     s\<lparr>tasks := (tasks s)(Task.ID (heap s t) \<mapsto> t),
       c := (c s)\<lparr>entries := entries (c s) @ [(nextID (c s) + 1, CronExpr (heap s t), t)],
                  nextID := nextID (c s) + 1\<rparr>,
       cronIDs := (cronIDs s)(Task.ID (heap s t) \<mapsto> nextID (c s) + 1),
       trace := trace s @ [RegisterOk (Task.ID (heap s t)) (Name (heap s t)) (CronExpr (heap s t))]\<rparr>"
  by (simp add: registerTask_def registerTask_store_def registerTask_add_def
        registerTask_handle_def AddFunc_def printf_def Let_def)

lemma registerTask_rest:
  "heap (registerTask e t s) = heap s"
  "nextAddr (registerTask e t s) = nextAddr s"
  "taskTable (registerTask e t s) = taskTable s"
  "logTable (registerTask e t s) = logTable s"
  "tasks (registerTask e t s) = (tasks s)(Task.ID (heap s t) \<mapsto> t)"
  by (cases "cronParseErr e (CronExpr (heap s t))"; simp add: registerTask_fail registerTask_ok)+

lemma registerTask_entries:
  "entries (c (registerTask e t s)) = entries (c s) @
     (case cronParseErr e (CronExpr (heap s t)) of
        None \<Rightarrow> [(nextID (c s) + 1, CronExpr (heap s t), t)]
      | Some err \<Rightarrow> [])"
  by (cases "cronParseErr e (CronExpr (heap s t))"; simp add: registerTask_fail registerTask_ok)

lemma registerTask_cronIDs:
  "cronIDs (registerTask e t s) =
     (case cronParseErr e (CronExpr (heap s t)) of
        None \<Rightarrow> (cronIDs s)(Task.ID (heap s t) \<mapsto> nextID (c s) + 1)
      | Some err \<Rightarrow> cronIDs s)"
  by (cases "cronParseErr e (CronExpr (heap s t))"; simp add: registerTask_fail registerTask_ok)

lemma runTask_trace_start:
  "tasks s tid = Some p \<Longrightarrow>
   \<exists>rest. trace (runTask e tid s) = trace s @ TaskStart (Task.ID (heap s p)) (Name (heap s p)) # rest"
  by (simp add: runTask_def Let_def case_prod_beta appendLog_trace setHeaders_snd_trace printf_def
        split: sum.splits http_result.splits)

lemma runTask_one_sink:
  "tasks s tid = Some p \<Longrightarrow>
   \<exists>log. sinkAppends (trace (runTask e tid s)) = sinkAppends (trace s) @ [log] \<and>
         TaskID log = Task.ID (heap s p)"
  using runTask_sink[of s tid p e] by force

lemma unregister_Some:
  "cronIDs s tid = Some h \<Longrightarrow>
   unregister tid s = s\<lparr>c := Remove h (c s), cronIDs := (cronIDs s)(tid := None),
                         tasks := (tasks s)(tid := None)\<rparr>"
  by (simp add: unregister_def)

lemma unregister_None:
  "cronIDs s tid = None \<Longrightarrow> unregister tid s = s\<lparr>tasks := (tasks s)(tid := None)\<rparr>"
  by (simp add: unregister_def)

lemma unregister_maps:
  "tasks (unregister tid s) = (tasks s)(tid := None)"
  "cronIDs (unregister tid s) = (cronIDs s)(tid := None)"
  "heap (unregister tid s) = heap s"
  "nextAddr (unregister tid s) = nextAddr s"
  "taskTable (unregister tid s) = taskTable s"
  "logTable (unregister tid s) = logTable s"
  "trace (unregister tid s) = trace s"
  by (cases "cronIDs s tid"; simp add: unregister_Some unregister_None fun_upd_idem)+

lemma unregister_c:
  "c (unregister tid s) = (case cronIDs s tid of Some h \<Rightarrow> Remove h (c s) | None \<Rightarrow> c s)"
  by (cases "cronIDs s tid"; simp add: unregister_Some unregister_None)

lemma unregister_unknown:
  "tasks s tid = None \<Longrightarrow> cronIDs s tid = None \<Longrightarrow> unregister tid s = s"
  by (simp add: unregister_None fun_upd_idem)

lemma find_Remove: "find (\<lambda>en. fst en = h) (entries (Remove h cr)) = None"
  by (simp add: Remove_def find_None_iff)

lemma createRequest_envA_taskB:
  "createRequest (envA\<lparr>taskFirst := f\<rparr>) taskB =
     Inr \<lparr>Req_Method = ''POST'', Req_URL = ''http://example.test/post'',
          Req_Header = [''Content-Type'' \<mapsto> ''application/json''], Req_Body = Some ''{}''\<rparr>"
  by (simp add: createRequest_def http_NewRequest_def Header_Set_def envA_simps taskB_simps)

text \<open>
  C3. When the cron expression of a definition does not parse, \<open>registerTask\<close> prints the
  failure and returns normally; the definition is in the definitions map, the handle map
  and the engine are exactly as before, so no handle has been added. A later run-now
  request for that identifier (one for which the store still finds the row) is answered
  with 200 and dispatches the task: what the handler does to the state is \<open>runTask\<close> on
  that identifier, which finds the definition, starts the task, hands the request built
  from the definition to the HTTP client whenever that request can be constructed, and
  hands exactly one execution record for the task to the store.
\<close>

theorem registerTask_bad_cron:
  assumes "cronParseErr e (CronExpr (heap s t)) = Some err"
  shows "let s' = registerTask e t s; tid = Task.ID (heap s t)
         in trace s' = trace s @ [RegisterFailed tid (Name (heap s t)) err] \<and>
            tasks s' tid = Some t \<and>
            cronIDs s' = cronIDs s \<and>
            c s' = c s \<and>
            (\<forall>e' param row. taskFirst e' param = Inr row \<and> Task.ID row = tid \<longrightarrow>
               fst (handleRun e' param s') = (200, TaskRunsInBackground) \<and>
               snd (handleRun e' param s') = runTask e' tid s' \<and>
               (\<exists>rest. trace (snd (handleRun e' param s')) =
                  trace s' @ TaskStart tid (Name (heap s t)) # rest) \<and>
               (\<forall>req0. createRequest e' (heap s t) = Inr req0 \<longrightarrow>
                  sentRequests (trace (snd (handleRun e' param s'))) =
                    sentRequests (trace s') @
                      [(\<lparr>Client_Timeout = timeoutDuration (heap s t)\<rparr>,
                        fst (setHeaders e' (heap s t) req0 s'))]) \<and>
               (\<exists>log. sinkAppends (trace (snd (handleRun e' param s'))) =
                  sinkAppends (trace s') @ [log] \<and> TaskID log = tid))"
proof -
  let ?s' = "registerTask e t s"
  let ?tid = "Task.ID (heap s t)"
  have s': "?s' = s\<lparr>tasks := (tasks s)(?tid \<mapsto> t),
       trace := trace s @ [RegisterFailed ?tid (Name (heap s t)) err]\<rparr>"
    by (rule registerTask_fail[OF assms])
  have t: "tasks ?s' ?tid = Some t" by (simp add: s')
  have h: "heap ?s' = heap s" by (simp add: s')
  have run: "fst (handleRun e' param ?s') = (200, TaskRunsInBackground) \<and>
       snd (handleRun e' param ?s') = runTask e' ?tid ?s' \<and>
       (\<exists>rest. trace (snd (handleRun e' param ?s')) =
          trace ?s' @ TaskStart ?tid (Name (heap s t)) # rest) \<and>
       (\<forall>req0. createRequest e' (heap s t) = Inr req0 \<longrightarrow>
          sentRequests (trace (snd (handleRun e' param ?s'))) =
            sentRequests (trace ?s') @
              [(\<lparr>Client_Timeout = timeoutDuration (heap s t)\<rparr>,
                fst (setHeaders e' (heap s t) req0 ?s'))]) \<and>
       (\<exists>log. sinkAppends (trace (snd (handleRun e' param ?s'))) =
          sinkAppends (trace ?s') @ [log] \<and> TaskID log = ?tid)"
    if "taskFirst e' param = Inr row" "Task.ID row = ?tid" for e' param row
  proof -
    have r: "snd (handleRun e' param ?s') = runTask e' ?tid ?s'"
      "fst (handleRun e' param ?s') = (200, TaskRunsInBackground)"
      using that by (simp_all add: handleRun_def)
    have sent: "sentRequests (trace (runTask e' ?tid ?s')) =
            sentRequests (trace ?s') @
              [(\<lparr>Client_Timeout = timeoutDuration (heap s t)\<rparr>,
                fst (setHeaders e' (heap s t) req0 ?s'))]"
      if "createRequest e' (heap s t) = Inr req0" for req0
      using runTask_sent[OF t, of e' req0] that by (simp add: h)
    show ?thesis
      using runTask_trace_start[OF t, of e'] runTask_one_sink[OF t, of e'] sent
      by (simp add: r h)
  qed
  have reg: "trace ?s' = trace s @ [RegisterFailed ?tid (Name (heap s t)) err]"
    "cronIDs ?s' = cronIDs s" "c ?s' = c s"
    by (simp_all add: s')
  show ?thesis
    unfolding Let_def using reg t run by blast
qed

theorem registerTask_bad_cron_witness:
  "cronParseErr envA (CronExpr (heap (snd (alloc taskB (initState [taskB] []))) 0)) = Some ''bad spec'' \<and>
   trace stateB = [RegisterFailed 2 ''b'' ''bad spec''] \<and>
   tasks stateB 2 = Some 0 \<and>
   cronIDs stateB 2 = None \<and>
   entries (c stateB) = [] \<and>
   taskFirst (envA\<lparr>taskFirst := \<lambda>param. Inr taskB\<rparr>) ''2'' = Inr taskB \<and>
   fst (handleRun (envA\<lparr>taskFirst := \<lambda>param. Inr taskB\<rparr>) ''2'' stateB) = (200, TaskRunsInBackground) \<and>
   snd (handleRun (envA\<lparr>taskFirst := \<lambda>param. Inr taskB\<rparr>) ''2'' stateB) =
     runTask (envA\<lparr>taskFirst := \<lambda>param. Inr taskB\<rparr>) 2 stateB \<and>
   map (\<lambda>(cl, req). (Client_Timeout cl, Req_Method req, Req_URL req, Req_Body req,
          Req_Header req ''Content-Type''))
     (sentRequests (trace (snd (handleRun (envA\<lparr>taskFirst := \<lambda>param. Inr taskB\<rparr>) ''2'' stateB)))) =
     [(3000000000, ''POST'', ''http://example.test/post'', Some ''{}'', Some ''text/plain'')] \<and>
   (\<exists>log. sinkAppends (trace (snd (handleRun (envA\<lparr>taskFirst := \<lambda>param. Inr taskB\<rparr>) ''2'' stateB))) = [log] \<and>
      TaskID log = 2)"
proof -
  let ?s0 = "snd (alloc taskB (initState [taskB] []))"
  let ?e' = "envA\<lparr>taskFirst := \<lambda>param. Inr taskB\<rparr>"
  have h0: "heap ?s0 0 = taskB" by (simp add: alloc_def initState_def)
  have h: "cronParseErr envA (CronExpr (heap ?s0 0)) = Some ''bad spec''"
    by (simp add: h0 taskB_simps envA_simps)
  have i: "cronIDs ?s0 = Map.empty" "c ?s0 = cron_New" "trace ?s0 = []"
    by (simp_all add: alloc_def initState_def)
  have td: "timeoutDuration taskB = 3000000000"
    by (simp add: timeoutDuration_def wrap64_def taskB_simps)
  have f: "taskFirst ?e' ''2'' = Inr taskB \<and> Task.ID taskB = Task.ID (heap ?s0 0)"
    by (simp add: h0)
  note th = registerTask_bad_cron[OF h, unfolded Let_def]
  note run = th[THEN conjunct2, THEN conjunct2, THEN conjunct2, THEN conjunct2, rule_format, OF f]
  have reg: "trace stateB = [RegisterFailed 2 ''b'' ''bad spec'']" "tasks stateB 2 = Some 0"
    "cronIDs stateB 2 = None" "entries (c stateB) = []"
    using th by (simp_all add: h0 i taskB_simps stateB_def[symmetric] cron_New_def)
  have sent: "sentRequests (trace (snd (handleRun ?e' ''2'' stateB))) =
      [(\<lparr>Client_Timeout = 3000000000\<rparr>,
        fst (setHeaders ?e' taskB \<lparr>Req_Method = ''POST'', Req_URL = ''http://example.test/post'',
          Req_Header = [''Content-Type'' \<mapsto> ''application/json''], Req_Body = Some ''{}''\<rparr> stateB))]"
  proof -
    have cr: "createRequest ?e' (heap ?s0 0) =
        Inr \<lparr>Req_Method = ''POST'', Req_URL = ''http://example.test/post'',
          Req_Header = [''Content-Type'' \<mapsto> ''application/json''], Req_Body = Some ''{}''\<rparr>"
      by (simp only: h0 createRequest_envA_taskB)
    show ?thesis
      using run[THEN conjunct2, THEN conjunct2, THEN conjunct2, THEN conjunct1, rule_format, OF cr]
      by (simp add: h0 stateB_def[symmetric] stateB_trace td)
  qed
  have run': "fst (handleRun ?e' ''2'' stateB) = (200, TaskRunsInBackground)"
    "snd (handleRun ?e' ''2'' stateB) = runTask ?e' 2 stateB"
    "\<exists>log. sinkAppends (trace (snd (handleRun ?e' ''2'' stateB))) = [log] \<and> TaskID log = 2"
    using run[THEN conjunct1] run[THEN conjunct2, THEN conjunct1]
      run[THEN conjunct2, THEN conjunct2, THEN conjunct2, THEN conjunct2]
    by (simp_all only: h0 stateB_def[symmetric] stateB_trace taskB_simps sinkAppends.simps
          append_Nil)
  have sent': "map (\<lambda>(cl, req). (Client_Timeout cl, Req_Method req, Req_URL req, Req_Body req,
          Req_Header req ''Content-Type''))
     (sentRequests (trace (snd (handleRun ?e' ''2'' stateB)))) =
     [(3000000000, ''POST'', ''http://example.test/post'', Some ''{}'', Some ''text/plain'')]"
    by (simp add: sent setHeaders_fst envA_simps envA_jsonHeaders taskB_simps)
  show ?thesis
    using h reg run' f sent' by blast
qed

text \<open>
  C4. The unregister operation (the locked block of the delete handler) removes the
  identifier from the definitions map and from the handle map. When the identifier had a
  handle, the engine entry with that handle is removed, and a later fire of that handle
  does nothing; without a handle the engine is untouched. A dispatch of the identifier
  afterwards only reports the task as not found. Other identifiers are not affected. On an
  identifier that is in neither map (never registered, or already unregistered) the
  operation returns the state unchanged, and doing it twice is the same as doing it once;
  the model has no failing branch, as the source has none. The delete handler, for a row
  the store finds, performs this operation and removes the row and its records. (For an
  identifier the store does not find, the handler answers 404 before reaching the
  operation.)
\<close>

theorem unregister_releases:
  "tasks (unregister tid s) tid = None \<and>
   cronIDs (unregister tid s) tid = None \<and>
   (case cronIDs s tid of
      Some h \<Rightarrow>
        entries (c (unregister tid s)) = filter (\<lambda>en. fst en \<noteq> h) (entries (c s)) \<and>
        fire e h (unregister tid s) = unregister tid s
    | None \<Rightarrow> c (unregister tid s) = c s) \<and>
   runTask e tid (unregister tid s) = printf (TaskNotFound tid) (unregister tid s) \<and>
   (\<forall>other. other \<noteq> tid \<longrightarrow>
      tasks (unregister tid s) other = tasks s other \<and>
      cronIDs (unregister tid s) other = cronIDs s other) \<and>
   (tasks s tid = None \<and> cronIDs s tid = None \<longrightarrow> unregister tid s = s) \<and>
   unregister tid (unregister tid s) = unregister tid s \<and>
   (\<forall>param row. taskFirst e param = Inr row \<and> Task.ID row = tid \<longrightarrow>
      fst (handleDelete e param s) = (200, TaskDeleted) \<and>
      snd (handleDelete e param s) =
        (unregister tid s)\<lparr>taskTable := filter (\<lambda>r. Task.ID r \<noteq> tid) (taskTable s),
                             logTable := filter (\<lambda>l. TaskID l \<noteq> tid) (logTable s)\<rparr>)"
proof -
  have 1: "tasks (unregister tid s) tid = None" "cronIDs (unregister tid s) tid = None"
    by (simp_all add: unregister_maps)
  have 2: "case cronIDs s tid of
      Some h \<Rightarrow>
        entries (c (unregister tid s)) = filter (\<lambda>en. fst en \<noteq> h) (entries (c s)) \<and>
        fire e h (unregister tid s) = unregister tid s
    | None \<Rightarrow> c (unregister tid s) = c s"
  proof (cases "cronIDs s tid")
    case None
    then show ?thesis by (simp add: unregister_c)
  next
    case (Some h)
    have "find (\<lambda>en. fst en = h) (entries (c (unregister tid s))) = None"
      by (simp add: unregister_c Some find_Remove)
    then show ?thesis by (simp add: Some unregister_c fire_def Remove_def)
  qed
  have 3: "runTask e tid (unregister tid s) = printf (TaskNotFound tid) (unregister tid s)"
    by (rule runTask_None) (rule 1)
  have 4: "unregister tid (unregister tid s) = unregister tid s"
    by (rule unregister_unknown) (rule 1)+
  have 5: "fst (handleDelete e param s) = (200, TaskDeleted) \<and>
      snd (handleDelete e param s) =
        (unregister tid s)\<lparr>taskTable := filter (\<lambda>r. Task.ID r \<noteq> tid) (taskTable s),
                             logTable := filter (\<lambda>l. TaskID l \<noteq> tid) (logTable s)\<rparr>"
    if "taskFirst e param = Inr row" "Task.ID row = tid" for param row
    using that by (simp add: handleDelete_def Let_def unregister_maps)
  show ?thesis
    using 1 2 3 4 5 by (simp add: unregister_maps unregister_unknown)
qed

theorem unregister_releases_witness:
  "cronIDs stateA 1 = Some 1 \<and>
   tasks (unregister 1 stateA) 1 = None \<and>
   cronIDs (unregister 1 stateA) 1 = None \<and>
   entries (c (unregister 1 stateA)) = [] \<and>
   fire envA 1 (unregister 1 stateA) = unregister 1 stateA \<and>
   tasks stateA 7 = None \<and> cronIDs stateA 7 = None \<and> unregister 7 stateA = stateA \<and>
   taskFirst envA ''1'' = Inr (zeroTask\<lparr>Task.ID := 1\<rparr>) \<and>
   fst (handleDelete envA ''1'' stateA) = (200, TaskDeleted) \<and>
   tasks (snd (handleDelete envA ''1'' stateA)) 1 = None \<and>
   taskTable (snd (handleDelete envA ''1'' stateA)) = []"
proof -
  have f: "taskFirst envA ''1'' = Inr (zeroTask\<lparr>Task.ID := 1\<rparr>)" by (simp add: envA_def)
  show ?thesis
    using f unregister_releases[of 1 stateA envA] unregister_releases[of 7 stateA envA]
    by (auto simp: stateA_tasks stateA_cronIDs stateA_c stateA_tables taskA_simps)
qed

text \<open>
  C9. A create request in which the name, the cron expression or the URL is empty is
  answered with status 400 and the required-fields error, and the state is returned
  unchanged: no row is stored, neither map changes and the engine gets no entry.
\<close>

theorem handleCreate_missing_field:
  assumes "Name req = [] \<or> CronExpr req = [] \<or> URL req = []"
  shows "handleCreate e (Inr req) s = ((400, RequiredFieldsMissing), s)"
  using assms by (simp add: handleCreate_def handleCreate_persist_def)

theorem handleCreate_missing_field_witness:
  "(Name (taskA\<lparr>URL := []\<rparr>) = [] \<or> CronExpr (taskA\<lparr>URL := []\<rparr>) = [] \<or> URL (taskA\<lparr>URL := []\<rparr>) = []) \<and>
   handleCreate envA (Inr (taskA\<lparr>URL := []\<rparr>)) stateA = ((400, RequiredFieldsMissing), stateA) \<and>
   handleCreate envA (Inr (taskA\<lparr>Name := []\<rparr>)) stateA = ((400, RequiredFieldsMissing), stateA) \<and>
   handleCreate envA (Inr (taskA\<lparr>CronExpr := []\<rparr>)) stateA = ((400, RequiredFieldsMissing), stateA)"
  using handleCreate_missing_field[of "taskA\<lparr>URL := []\<rparr>" envA stateA]
    handleCreate_missing_field[of "taskA\<lparr>Name := []\<rparr>" envA stateA]
    handleCreate_missing_field[of "taskA\<lparr>CronExpr := []\<rparr>" envA stateA]
  by simp

subsection \<open>The bootstrap loop\<close>

lemma loadLoop_Cons:
  "loadLoop e (x # xs) s = loadLoop e xs (registerTask e (nextAddr s) (snd (alloc x s)))"
  by (simp add: alloc_def)

lemma loadStep_facts:
  "nextAddr (registerTask e (nextAddr s) (snd (alloc x s))) = Suc (nextAddr s)"
  "heap (registerTask e (nextAddr s) (snd (alloc x s))) = (heap s)(nextAddr s := x)"
  "tasks (registerTask e (nextAddr s) (snd (alloc x s))) = (tasks s)(Task.ID x \<mapsto> nextAddr s)"
  "taskTable (registerTask e (nextAddr s) (snd (alloc x s))) = taskTable s"
  "logTable (registerTask e (nextAddr s) (snd (alloc x s))) = logTable s"
  by (simp_all add: registerTask_rest alloc_def)

lemma loadStep_cronIDs:
  "cronIDs (registerTask e (nextAddr s) (snd (alloc x s))) =
     (case cronParseErr e (CronExpr x) of
        None \<Rightarrow> (cronIDs s)(Task.ID x \<mapsto> nextID (c s) + 1)
      | Some err \<Rightarrow> cronIDs s)"
  by (simp add: registerTask_cronIDs alloc_def split: option.splits)

lemma loadStep_entries:
  "entries (c (registerTask e (nextAddr s) (snd (alloc x s)))) = entries (c s) @
     (case cronParseErr e (CronExpr x) of
        None \<Rightarrow> [(nextID (c s) + 1, CronExpr x, nextAddr s)]
      | Some err \<Rightarrow> [])"
  by (simp add: registerTask_entries alloc_def split: option.splits)

lemma loadStep_trace:
  "trace (registerTask e (nextAddr s) (snd (alloc x s))) = trace s @
     [case cronParseErr e (CronExpr x) of
        None \<Rightarrow> RegisterOk (Task.ID x) (Name x) (CronExpr x)
      | Some err \<Rightarrow> RegisterFailed (Task.ID x) (Name x) err]"
  by (cases "cronParseErr e (CronExpr x)")
     (simp_all add: registerTask_fail registerTask_ok alloc_def)

lemma loadLoop_nextAddr: "nextAddr (loadLoop e rows s) = nextAddr s + length rows"
  by (induction rows arbitrary: s) (simp_all add: loadLoop_Cons loadStep_facts del: loadLoop.simps(2))

lemma loadLoop_tables:
  "taskTable (loadLoop e rows s) = taskTable s" "logTable (loadLoop e rows s) = logTable s"
  by (induction rows arbitrary: s) (simp_all add: loadLoop_Cons loadStep_facts del: loadLoop.simps(2))

lemma loadLoop_heap_below: "a < nextAddr s \<Longrightarrow> heap (loadLoop e rows s) a = heap s a"
  by (induction rows arbitrary: s) (simp_all add: loadLoop_Cons loadStep_facts del: loadLoop.simps(2))

lemma loadLoop_heap_cell:
  "i < length rows \<Longrightarrow> heap (loadLoop e rows s) (nextAddr s + i) = rows ! i"
proof (induction rows arbitrary: s i)
  case Nil
  then show ?case by simp
next
  case (Cons x xs)
  let ?s1 = "registerTask e (nextAddr s) (snd (alloc x s))"
  show ?case
  proof (cases i)
    case 0
    have "heap (loadLoop e xs ?s1) (nextAddr s) = heap ?s1 (nextAddr s)"
      by (rule loadLoop_heap_below) (simp add: loadStep_facts)
    then show ?thesis by (simp add: 0 loadLoop_Cons loadStep_facts del: loadLoop.simps(2))
  next
    case (Suc j)
    with Cons.prems have "j < length xs" by simp
    from Cons.IH[OF this, of ?s1] show ?thesis
      by (simp add: Suc loadLoop_Cons loadStep_facts del: loadLoop.simps(2))
  qed
qed

lemma loadLoop_trace:
  "trace (loadLoop e rows s) = trace s @
     map (\<lambda>x. case cronParseErr e (CronExpr x) of
                 None \<Rightarrow> RegisterOk (Task.ID x) (Name x) (CronExpr x)
               | Some err \<Rightarrow> RegisterFailed (Task.ID x) (Name x) err) rows"
  by (induction rows arbitrary: s) (simp_all add: loadLoop_Cons loadStep_trace del: loadLoop.simps(2))

lemma loadLoop_tasks_other:
  "tid \<notin> Task.ID ` set rows \<Longrightarrow> tasks (loadLoop e rows s) tid = tasks s tid"
  by (induction rows arbitrary: s) (auto simp: loadLoop_Cons loadStep_facts simp del: loadLoop.simps(2))

lemma loadLoop_cronIDs_other:
  "tid \<notin> Task.ID ` set rows \<Longrightarrow> cronIDs (loadLoop e rows s) tid = cronIDs s tid"
  by (induction rows arbitrary: s)
     (auto simp: loadLoop_Cons loadStep_cronIDs simp del: loadLoop.simps(2) split: option.splits)

lemma loadLoop_tasks:
  "distinct (map Task.ID rows) \<Longrightarrow> i < length rows \<Longrightarrow>
   tasks (loadLoop e rows s) (Task.ID (rows ! i)) = Some (nextAddr s + i)"
proof (induction rows arbitrary: s i)
  case Nil
  then show ?case by simp
next
  case (Cons x xs)
  let ?s1 = "registerTask e (nextAddr s) (snd (alloc x s))"
  show ?case
  proof (cases i)
    case 0
    have "Task.ID x \<notin> Task.ID ` set xs" using Cons.prems(1) by auto
    then have "tasks (loadLoop e xs ?s1) (Task.ID x) = tasks ?s1 (Task.ID x)"
      by (rule loadLoop_tasks_other)
    then show ?thesis by (simp add: 0 loadLoop_Cons loadStep_facts del: loadLoop.simps(2))
  next
    case (Suc j)
    with Cons.prems have "j < length xs" "distinct (map Task.ID xs)" by simp_all
    from Cons.IH[OF this(2,1), of ?s1] show ?thesis
      by (simp add: Suc loadLoop_Cons loadStep_facts del: loadLoop.simps(2))
  qed
qed

lemma loadLoop_entries:
  "map snd (entries (c (loadLoop e rows s))) = map snd (entries (c s)) @
     map (\<lambda>(a, x). (CronExpr x, a))
       (filter (\<lambda>(a, x). cronParseErr e (CronExpr x) = None)
          (zip [nextAddr s ..< nextAddr s + length rows] rows))"
proof (induction rows arbitrary: s)
  case Nil
  show ?case by simp
next
  case (Cons x xs)
  let ?s1 = "registerTask e (nextAddr s) (snd (alloc x s))"
  have z: "zip [nextAddr s ..< nextAddr s + length (x # xs)] (x # xs) =
           (nextAddr s, x) # zip [Suc (nextAddr s) ..< Suc (nextAddr s) + length xs] xs"
    by (subst upt_conv_Cons) simp_all
  show ?case
    unfolding loadLoop_Cons z
    by (simp add: Cons.IH loadStep_entries loadStep_facts split: option.splits)
qed

lemma main_Inr:
  "main e (Inr (rows, logs)) = Inr s \<longleftrightarrow>
   s = (let l = loadLoop e rows (printf (LoadedTasks (length rows)) (initState rows logs))
        in printf ServerStarted (l\<lparr>c := Start (c l)\<rparr>))"
  by (auto simp: main_def loadTasksFromDB_def Let_def initState_def printf_def)

lemma handles_registerTask:
  "distinct (map fst (entries (c s))) \<and> (\<forall>en \<in> set (entries (c s)). fst en \<le> nextID (c s)) \<Longrightarrow>
   distinct (map fst (entries (c (registerTask e t s)))) \<and>
   (\<forall>en \<in> set (entries (c (registerTask e t s))). fst en \<le> nextID (c (registerTask e t s)))"
  by (cases "cronParseErr e (CronExpr (heap s t))")
     (auto simp: registerTask_fail registerTask_ok)

lemma handles_loadLoop:
  "distinct (map fst (entries (c s))) \<and> (\<forall>en \<in> set (entries (c s)). fst en \<le> nextID (c s)) \<Longrightarrow>
   distinct (map fst (entries (c (loadLoop e rows s)))) \<and>
   (\<forall>en \<in> set (entries (c (loadLoop e rows s))). fst en \<le> nextID (c (loadLoop e rows s)))"
proof (induction rows arbitrary: s)
  case Nil
  then show ?case by simp
next
  case (Cons x xs)
  let ?a = "snd (alloc x s)"
  have "c ?a = c s" by (simp add: alloc_def)
  with Cons.prems have "distinct (map fst (entries (c ?a))) \<and>
      (\<forall>en \<in> set (entries (c ?a)). fst en \<le> nextID (c ?a))" by simp
  then have "distinct (map fst (entries (c (registerTask e (nextAddr s) ?a)))) \<and>
      (\<forall>en \<in> set (entries (c (registerTask e (nextAddr s) ?a))).
         fst en \<le> nextID (c (registerTask e (nextAddr s) ?a)))"
    by (rule handles_registerTask)
  then have "distinct (map fst (entries (c (loadLoop e xs (registerTask e (nextAddr s) ?a))))) \<and>
      (\<forall>en \<in> set (entries (c (loadLoop e xs (registerTask e (nextAddr s) ?a)))).
         fst en \<le> nextID (c (loadLoop e xs (registerTask e (nextAddr s) ?a))))"
    by (rule Cons.IH)
  then show ?case
    unfolding loadLoop_Cons .
qed

lemma find_distinct_key:
  "distinct (map fst ents) \<Longrightarrow> en \<in> set ents \<Longrightarrow> find (\<lambda>x. fst x = fst en) ents = Some en"
  by (induction ents) (auto simp: image_iff)

lemma fire_entry:
  "distinct (map fst (entries (c s))) \<Longrightarrow> en \<in> set (entries (c s)) \<Longrightarrow>
   fire e (fst en) s = runTask e (Task.ID (heap s (snd (snd en)))) s"
  by (simp add: fire_def find_distinct_key case_prod_beta)

text \<open>
  C8. At process start \<open>main\<close> loads every persisted task definition and registers each
  one; the state in which the serving loop is entered already holds all of these
  registrations, every registration line of the output precedes the line that announces
  the server, and the engine is started. Each registration is given a cell of its own:
  the cell allocated for the \<open>i\<close>-th row holds the \<open>i\<close>-th row, the engine entries are
  exactly those of the rows whose cron expression parses, each capturing the cell of its
  own row, and firing an entry dispatches the identifier of that row, not of the row seen
  last. With distinct identifiers, the definitions map sends the identifier of each row to
  the cell of that row.
\<close>

theorem main_registers_before_serving:
  assumes "main e (Inr (rows, logs)) = Inr s"
  shows "nextAddr s = length rows \<and>
     (\<forall>i < length rows. heap s i = rows ! i) \<and>
     map snd (entries (c s)) =
       map (\<lambda>(a, x). (CronExpr x, a))
         (filter (\<lambda>(a, x). cronParseErr e (CronExpr x) = None) (zip [0 ..< length rows] rows)) \<and>
     (\<forall>en \<in> set (entries (c s)).
        snd (snd en) < length rows \<and>
        fire e' (fst en) s = runTask e' (Task.ID (rows ! snd (snd en))) s) \<and>
     (distinct (map Task.ID rows) \<longrightarrow> (\<forall>i < length rows. tasks s (Task.ID (rows ! i)) = Some i)) \<and>
     trace s = LoadedTasks (length rows) #
       map (\<lambda>x. case cronParseErr e (CronExpr x) of
                   None \<Rightarrow> RegisterOk (Task.ID x) (Name x) (CronExpr x)
                 | Some err \<Rightarrow> RegisterFailed (Task.ID x) (Name x) err) rows @ [ServerStarted] \<and>
     running (c s) \<and> taskTable s = rows"
proof -
  define b where "b = printf (LoadedTasks (length rows)) (initState rows logs)"
  define l where "l = loadLoop e rows b"
  have s: "s = printf ServerStarted (l\<lparr>c := Start (c l)\<rparr>)"
    using assms by (simp add: main_Inr Let_def l_def b_def)
  have b: "nextAddr b = 0" "entries (c b) = []" "trace b = [LoadedTasks (length rows)]"
    "taskTable b = rows"
    by (simp_all add: b_def printf_def initState_def cron_New_def)
  have proj: "nextAddr s = nextAddr l" "heap s = heap l" "entries (c s) = entries (c l)"
    "tasks s = tasks l" "trace s = trace l @ [ServerStarted]" "running (c s)"
    "taskTable s = taskTable l"
    by (simp_all add: s printf_def Start_def)
  have 1: "nextAddr s = length rows"
    by (simp add: proj l_def loadLoop_nextAddr b)
  have 2: "heap s i = rows ! i" if "i < length rows" for i
    using loadLoop_heap_cell[OF that, of e b] by (simp add: proj l_def b)
  have 3: "map snd (entries (c s)) =
       map (\<lambda>(a, x). (CronExpr x, a))
         (filter (\<lambda>(a, x). cronParseErr e (CronExpr x) = None) (zip [0 ..< length rows] rows))"
    using loadLoop_entries[of e rows b] by (simp add: proj l_def b)
  have d: "distinct (map fst (entries (c s)))"
    using handles_loadLoop[of b e rows] by (simp add: proj l_def b)
  have 4: "snd (snd en) < length rows \<and>
        fire e' (fst en) s = runTask e' (Task.ID (rows ! snd (snd en))) s"
    if en: "en \<in> set (entries (c s))" for en
  proof -
    from en have "snd en \<in> set (map snd (entries (c s)))" by simp
    then have "snd en \<in> (\<lambda>(a, x). (CronExpr x, a)) ` set (zip [0 ..< length rows] rows)"
      unfolding 3 by auto
    then obtain a x where "(a, x) \<in> set (zip [0 ..< length rows] rows)" "snd en = (CronExpr x, a)"
      by auto
    then have a: "snd (snd en) < length rows"
      by (auto dest: set_zip_leftD)
    show ?thesis
      using a fire_entry[OF d en, of e'] 2[OF a] by simp
  qed
  have 5: "tasks s (Task.ID (rows ! i)) = Some i" if "distinct (map Task.ID rows)" "i < length rows" for i
    using loadLoop_tasks[OF that, of e b] by (simp add: proj l_def b)
  have 6: "trace s = LoadedTasks (length rows) #
       map (\<lambda>x. case cronParseErr e (CronExpr x) of
                   None \<Rightarrow> RegisterOk (Task.ID x) (Name x) (CronExpr x)
                 | Some err \<Rightarrow> RegisterFailed (Task.ID x) (Name x) err) rows @ [ServerStarted]"
    by (simp add: proj l_def loadLoop_trace b)
  have 7: "taskTable s = rows"
    by (simp add: proj l_def loadLoop_tables b)
  show ?thesis
    using 1 2 3 4 5 6 7 proj(6) by blast
qed

theorem main_registers_before_serving_witness:
  "\<exists>s. main envA (Inr ([taskA, taskB], [])) = Inr s \<and>
     nextAddr s = 2 \<and> heap s 0 = taskA \<and> heap s 1 = taskB \<and>
     map snd (entries (c s)) = [(''*/5 * * * * *'', 0)] \<and>
     distinct (map Task.ID [taskA, taskB]) \<and>
     tasks s 1 = Some 0 \<and> tasks s 2 = Some 1 \<and>
     trace s = [LoadedTasks 2, RegisterOk 1 ''a'' ''*/5 * * * * *'',
                RegisterFailed 2 ''b'' ''bad spec'', ServerStarted]"
proof -
  obtain s where m: "main envA (Inr ([taskA, taskB], [])) = Inr s"
    by (simp add: main_def Let_def)
  have d: "distinct (map Task.ID [taskA, taskB])" by (simp add: taskA_simps taskB_simps)
  note th = main_registers_before_serving[OF m, of envA]
  from th have h: "\<forall>i<length [taskA, taskB]. heap s i = [taskA, taskB] ! i" by blast
  from th d have t: "\<forall>i<length [taskA, taskB]. tasks s (Task.ID ([taskA, taskB] ! i)) = Some i" by blast
  have h0: "heap s 0 = taskA" using h[THEN spec, of 0] by simp
  have h1: "heap s 1 = taskB" using h[THEN spec, of 1] by simp
  have t0: "tasks s 1 = Some 0" using t[THEN spec, of 0] by (simp add: taskA_simps)
  have t1: "tasks s 2 = Some 1" using t[THEN spec, of 1] by (simp add: taskB_simps)
  show ?thesis
    using m d h0 h1 t0 t1 th
    by (intro exI[of _ s]) (simp add: taskA_simps taskB_simps envA_simps upt_rec)
qed

subsection \<open>A delete request served inside registerTask\<close>

lemma handlesDefined_registerTask:
  "handlesDefined s \<Longrightarrow> handlesDefined (registerTask e t s)"
  by (auto simp: handlesDefined_def registerTask_rest registerTask_cronIDs split: option.splits)

lemma handlesDefined_unregister:
  "handlesDefined s \<Longrightarrow> handlesDefined (unregister tid s)"
  by (auto simp: handlesDefined_def unregister_maps)

lemma servingEmpty_fields:
  "heap servingEmpty = (\<lambda>_. zeroTask)" "nextAddr servingEmpty = 0"
  "tasks servingEmpty = Map.empty" "cronIDs servingEmpty = Map.empty"
  "c servingEmpty = \<lparr>entries = [], nextID = 0, running = True\<rparr>"
  "taskTable servingEmpty = []" "logTable servingEmpty = []"
  by (simp_all add: servingEmpty_def loadTasksFromDB_def Let_def initState_def printf_def
        Start_def cron_New_def)

lemma main_servingEmpty: "main envA (Inr ([], [])) = Inr servingEmpty"
  by (simp add: main_def Let_def servingEmpty_def)

lemma race_persist:
  "handleCreate_persist envA (Inr (taskA\<lparr>Task.ID := 0\<rparr>)) servingEmpty =
     Inr (taskA, servingEmpty\<lparr>taskTable := [taskA]\<rparr>)"
  by (simp add: handleCreate_persist_def Let_def envA_simps taskA_def servingEmpty_fields)

lemma race_stored:
  "tasks (registerTask_store 0 (snd (alloc taskA (servingEmpty\<lparr>taskTable := [taskA]\<rparr>)))) = [1 \<mapsto> 0]"
  "cronIDs (registerTask_store 0 (snd (alloc taskA (servingEmpty\<lparr>taskTable := [taskA]\<rparr>)))) = Map.empty"
  "taskTable (registerTask_store 0 (snd (alloc taskA (servingEmpty\<lparr>taskTable := [taskA]\<rparr>)))) = [taskA]"
  by (simp_all add: registerTask_store_def alloc_def servingEmpty_fields taskA_simps)

lemma raced_fields:
  "tasks raced = Map.empty" "cronIDs raced = [1 \<mapsto> 1]"
  "entries (c raced) = [(1, ''*/5 * * * * *'', 0)]" "nextID (c raced) = 1"
  "taskTable raced = []" "heap raced 0 = taskA" "nextAddr raced = 1"
  by (simp_all add: raced_def createRacedByDelete_def race_persist alloc_def
        registerTask_store_def registerTask_add_def registerTask_handle_def AddFunc_def
        handleDelete_def unregister_def Let_def printf_def servingEmpty_fields taskA_simps
        envA_simps)

text \<open>
  C10. After every complete registry operation, every identifier in the handle map
  should also be in the definitions map. \<open>registerTask\<close> and the unregister operation each
  keep this when they run without interruption (the two lemmas above), but the program
  does not keep it: \<open>registerTask\<close> releases the mutex between storing the definition and
  storing the handle. On an empty store, a create request is given identifier 1, and a
  delete request for identifier 1 is served after the definition has been stored and
  before \<open>c.AddFunc\<close> is called: the delete handler finds the row, removes the definition
  and the row, and finds no handle to release. The create handler then adds the engine
  entry and stores its handle. When both handlers have returned, the handle map has
  identifier 1 and the definitions map has not.
\<close>

theorem delete_in_gap_breaks_invariant:
  "main envA (Inr ([], [])) = Inr servingEmpty \<and>
   handleCreate_persist envA (Inr (taskA\<lparr>Task.ID := 0\<rparr>)) servingEmpty =
     Inr (taskA, servingEmpty\<lparr>taskTable := [taskA]\<rparr>) \<and>
   tasks (registerTask_store 0 (snd (alloc taskA (servingEmpty\<lparr>taskTable := [taskA]\<rparr>)))) 1 = Some 0 \<and>
   cronIDs raced 1 = Some 1 \<and>
   tasks raced 1 = None \<and>
   \<not> handlesDefined raced"
  by (simp add: main_servingEmpty race_persist race_stored raced_fields handlesDefined_def)

subsection \<open>Registering an identifier that has a handle\<close>

lemma registerTask_twice:
  "cronIDs stateA 1 = Some 1 \<and>
   entriesFor (registerTask envA 0 stateA) 1 =
     [(1, ''*/5 * * * * *'', 0), (2, ''*/5 * * * * *'', 0)] \<and>
   cronIDs (registerTask envA 0 stateA) 1 = Some 2"
  by (simp add: entriesFor_def registerTask_entries registerTask_cronIDs registerTask_rest
        stateA_heap stateA_c stateA_cronIDs taskA_simps envA_simps)

lemma racedAgain_fields:
  "entries (c racedAgain) = [(1, ''*/5 * * * * *'', 0), (2, ''*/5 * * * * *'', 1)]"
  "cronIDs racedAgain = [1 \<mapsto> 2]" "tasks racedAgain = [1 \<mapsto> 1]"
  "heap racedAgain 0 = taskA" "heap racedAgain (Suc 0) = taskA" "taskTable racedAgain = [taskA]"
  by (simp_all add: racedAgain_def handleCreate_def handleCreate_persist_def Let_def alloc_def
        registerTask_def registerTask_store_def registerTask_add_def registerTask_handle_def
        AddFunc_def printf_def raced_fields taskA_simps envA_simps)

lemma racedAgain_answer:
  "fst (handleCreate envA (Inr taskA) raced) = (200, TaskJSON taskA)"
  by (simp add: handleCreate_def handleCreate_persist_def Let_def alloc_def taskA_def envA_simps)

text \<open>
  C1. For every task identifier there should be at most one engine entry, a registration
  of an identifier that has a handle first releasing that handle. \<open>registerTask\<close> has no
  such release (see the lemma \<open>registerTask_twice\<close>: it keeps the entry it finds and adds
  another), and the program reaches a registration of an identifier that has a handle.
  After the interleaving of C10, identifier 1 has handle 1 and an engine entry, and the
  store has no row for it. A create request carrying identifier 1 is therefore accepted
  by the store and registered: the engine then has the entries of handles 1 and 2, both
  dispatching identifier 1, and the handle map remembers handle 2 only. A delete request
  for identifier 1 releases handle 2; the entry of handle 1 stays in the engine, with no
  handle left in the map by which it could be released.
\<close>

theorem reregistration_keeps_prior_entry:
  "cronIDs raced 1 = Some 1 \<and>
   entriesFor raced 1 = [(1, ''*/5 * * * * *'', 0)] \<and>
   taskTable raced = [] \<and>
   fst (handleCreate envA (Inr taskA) raced) = (200, TaskJSON taskA) \<and>
   entriesFor racedAgain 1 = [(1, ''*/5 * * * * *'', 0), (2, ''*/5 * * * * *'', 1)] \<and>
   cronIDs racedAgain 1 = Some 2 \<and>
   \<not> length (entriesFor racedAgain 1) \<le> 1 \<and>
   fire envA 1 racedAgain = runTask envA 1 racedAgain \<and>
   fire envA 2 racedAgain = runTask envA 1 racedAgain \<and>
   entriesFor (snd (handleDelete (envA\<lparr>taskFirst := \<lambda>param. Inr taskA\<rparr>) ''1'' racedAgain)) 1 =
     [(1, ''*/5 * * * * *'', 0)] \<and>
   cronIDs (snd (handleDelete (envA\<lparr>taskFirst := \<lambda>param. Inr taskA\<rparr>) ''1'' racedAgain)) 1 = None"
  by (simp add: raced_fields racedAgain_fields racedAgain_answer entriesFor_def taskA_simps
        fire_def handleDelete_def unregister_def Let_def Remove_def)

subsection \<open>Timeouts\<close>






lemma main_tasks_cell:
  "main e (Inr (rows, logs)) = Inr s \<Longrightarrow> distinct (map Task.ID rows) \<Longrightarrow> i < length rows \<Longrightarrow>
   tasks s (Task.ID (rows ! i)) = Some i"
  using loadLoop_tasks[of rows i e "printf (LoadedTasks (length rows)) (initState rows logs)"]
  by (simp add: main_Inr Let_def printf_def initState_def)








end
